theory Spec2Isabelle
  imports Main "HOL-Library.Word" "HOL-Library.Log_Nat" "HOL-Library.Sublist"
begin

section \<open>Python values used by the visual comparison suite\<close>

text \<open>
  The development follows \<^verbatim>\<open>test_visual_comparison.py\<close>. Python integers are
  \<^typ>\<open>int\<close>, image sizes and loop indices (values of \<^verbatim>\<open>range\<close>) are \<^typ>\<open>nat\<close>,
  an exception is a value of \<open>exc\<close>, and a computation that may raise returns
  \<open>exc + 'a\<close> with \<open>Inl\<close> for the exception.
\<close>

datatype exc =
    IndexError
  | ZeroDivisionError
  | OverflowError
  | TypeError
  | KeyError
  | ValueError
  | FileNotFoundError
  | UnidentifiedImageError
  | OSError
  | TimeoutError
  | AssertionError string
  | ProviderError string

subsection \<open>Floats\<close>

text \<open>
  A Python float is an IEEE binary64 value. A finite one is represented by the rational
  it denotes; \<open>binary64 q\<close> is the value nearest to \<open>q\<close> with a 53 bit significand
  (ties to even, gradual underflow below \<open>2\<^sup>-\<^sup>1\<^sup>0\<^sup>2\<^sup>2\<close>), before the overflow check that
  \<open>to_float\<close> adds. The sign of zero is not represented.
\<close>

datatype pyfloat = Finite rat | PosInf | NegInf

definition pow2 :: "int \<Rightarrow> rat" where
  "pow2 e = (if 0 \<le> e then 2 ^ nat e else 1 / 2 ^ nat (- e))"

definition round_half_even :: "rat \<Rightarrow> int" where
  "round_half_even q =
     (let f = \<lfloor>q\<rfloor>; d = q - of_int f in
      if d < 1 / 2 then f
      else if 1 / 2 < d then f + 1
      else if even f then f else f + 1)"

definition ulp_exponent :: "rat \<Rightarrow> int" where
  "ulp_exponent q =
     (let n = fst (quotient_of \<bar>q\<bar>); m = snd (quotient_of \<bar>q\<bar>);
          k = bitlen n - bitlen m;
          e = (if \<bar>q\<bar> < pow2 k then k - 1 else k)
      in max (e - 52) (- 1074))"

definition binary64 :: "rat \<Rightarrow> rat" where
  "binary64 q =
     (if q = 0 then 0
      else of_int (round_half_even (q / pow2 (ulp_exponent q))) * pow2 (ulp_exponent q))"

definition to_float :: "rat \<Rightarrow> pyfloat" where
  "to_float q =
     (let r = binary64 q in
      if 2 ^ 1024 \<le> r then PosInf
      else if r \<le> - (2 ^ 1024) then NegInf
      else Finite r)"

text \<open>
  \<^verbatim>\<open>a / b\<close> on two Python integers: the correctly rounded quotient, ZeroDivisionError
  for a zero divisor, OverflowError when the quotient is too large for a float.
\<close>

definition int_truediv :: "int \<Rightarrow> int \<Rightarrow> exc + rat" where
  "int_truediv a b =
     (if b = 0 then Inl ZeroDivisionError
      else case to_float (of_int a / of_int b) of
             Finite r \<Rightarrow> Inr r
           | _ \<Rightarrow> Inl OverflowError)"

text \<open>\<^verbatim>\<open>x * y\<close> on two finite floats; an overflow gives an infinity, no exception.\<close>

definition float_mul :: "rat \<Rightarrow> rat \<Rightarrow> pyfloat" where
  "float_mul x y = to_float (x * y)"

text \<open>\<^verbatim>\<open>x >= c\<close> for a float \<open>x\<close> and a finite constant \<open>c\<close>.\<close>

fun float_ge :: "pyfloat \<Rightarrow> rat \<Rightarrow> bool" where
  "float_ge (Finite r) c = (c \<le> r)"
| "float_ge PosInf c = True"
| "float_ge NegInf c = False"

section \<open>Raster images\<close>

text \<open>
  An image in mode RGB, as \<^verbatim>\<open>Image.open(path).convert('RGB')\<close> returns it: its size
  \<open>(width, height)\<close> and an 8 bit triple per coordinate. \<open>getpixel\<close> and \<open>putpixel\<close>
  are the reads and writes through the pixel access object (\<^verbatim>\<open>img.load()\<close>), which
  raise IndexError outside the image.
\<close>

type_synonym pixel = "8 word \<times> 8 word \<times> 8 word"

record image =
  img_size :: "nat \<times> nat"
  img_data :: "nat \<times> nat \<Rightarrow> pixel"

definition in_image :: "image \<Rightarrow> nat \<times> nat \<Rightarrow> bool" where
  "in_image img xy = (fst xy < fst (img_size img) \<and> snd xy < snd (img_size img))"

definition getpixel :: "image \<Rightarrow> nat \<times> nat \<Rightarrow> exc + pixel" where
  "getpixel img xy = (if in_image img xy then Inr (img_data img xy) else Inl IndexError)"

definition putpixel :: "image \<Rightarrow> nat \<times> nat \<Rightarrow> pixel \<Rightarrow> exc + image" where
  "putpixel img xy p =
     (if in_image img xy then Inr (img\<lparr>img_data := (img_data img)(xy := p)\<rparr>)
      else Inl IndexError)"

text \<open>
  \<^verbatim>\<open>Image.new('RGB', size, color)\<close>: an image of one colour; the colour defaults to
  black, which is how \<^verbatim>\<open>compare_screenshots\<close> creates the visualization.
\<close>

definition Image_new :: "nat \<times> nat \<Rightarrow> pixel \<Rightarrow> image" where
  "Image_new sz color = \<lparr>img_size = sz, img_data = (\<lambda>xy. color)\<rparr>"

text \<open>
  An image without a pixel. \<^verbatim>\<open>Image.new\<close> creates one when asked, but Pillow neither
  decodes a file to one, nor resizes to one, nor writes one.
\<close>

definition empty_image :: "image \<Rightarrow> bool" where
  "empty_image img = (fst (img_size img) = 0 \<or> snd (img_size img) = 0)"

text \<open>
  \<^verbatim>\<open>img.resize(size, filter)\<close> is Pillow's: it raises ValueError when the requested
  width or height is 0; otherwise the result has the requested size, and its content is
  computed by the library's resampling kernel, a parameter \<open>rs\<close> here.
\<close>

datatype resampling = NEAREST | BOX | BILINEAR | HAMMING | BICUBIC | LANCZOS

type_synonym resampler = "resampling \<Rightarrow> image \<Rightarrow> nat \<times> nat \<Rightarrow> nat \<times> nat \<Rightarrow> pixel"

definition resize :: "resampler \<Rightarrow> image \<Rightarrow> nat \<times> nat \<Rightarrow> resampling \<Rightarrow> exc + image" where
  "resize rs img sz flt =
     (if fst sz = 0 \<or> snd sz = 0 then Inl ValueError
      else Inr \<lparr>img_size = sz, img_data = rs flt img sz\<rparr>)"

text \<open>
  What \<^verbatim>\<open>img.save(path)\<close> does with the image itself: Pillow refuses to write an image
  without a pixel, with a ValueError.
\<close>

definition save_check :: "image \<Rightarrow> exc + unit" where
  "save_check img = (if empty_image img then Inl ValueError else Inr ())"

section \<open>The raster differ: \<^verbatim>\<open>VisualTester.compare_screenshots\<close>\<close>

text \<open>
  \<^verbatim>\<open>sum(abs(r - t) for r, t in zip(ref_pixel, target_pixel))\<close> on Python integers.
\<close>

fun pixel_diff :: "pixel \<Rightarrow> pixel \<Rightarrow> int" where
  "pixel_diff (r1, g1, b1) (r2, g2, b2) =
     0 + \<bar>uint r1 - uint r2\<bar> + \<bar>uint g1 - uint g2\<bar> + \<bar>uint b1 - uint b2\<bar>"

text \<open>\<^verbatim>\<open>sum(target_pixel) // 3\<close>.\<close>

fun gray_level :: "pixel \<Rightarrow> int" where
  "gray_level (r, g, b) = (0 + uint r + uint g + uint b) div 3"

text \<open>The variables the pixel loop updates.\<close>

record scan =
  different_cnt :: int
  max_diff :: int
  diff_img :: image

text \<open>
  The body of the inner loop (lines 152 to 166) at column \<open>x\<close> of row \<open>y\<close>. The gray
  level lies between 0 and 255 (\<open>gray_level_range\<close> below), so storing it in a channel
  loses nothing.
\<close>

definition visit :: "image \<Rightarrow> image \<Rightarrow> nat \<Rightarrow> nat \<Rightarrow> scan \<Rightarrow> exc + scan" where
  "visit ref_img target_img y x st =
     (case getpixel ref_img (x, y) of
        Inl e \<Rightarrow> Inl e
      | Inr ref_pixel \<Rightarrow>
     (case getpixel target_img (x, y) of
        Inl e \<Rightarrow> Inl e
      | Inr target_pixel \<Rightarrow>
     (let diff = pixel_diff ref_pixel target_pixel;
          st1 = st\<lparr>max_diff := max (max_diff st) diff\<rparr>
      in if 30 < diff then
           (case putpixel (diff_img st1) (x, y) (255, 0, 0) of
              Inl e \<Rightarrow> Inl e
            | Inr d \<Rightarrow> Inr (st1\<lparr>different_cnt := different_cnt st1 + 1, diff_img := d\<rparr>))
         else
           (let gray = gray_level target_pixel in
            case putpixel (diff_img st1) (x, y) (word_of_int gray, word_of_int gray, word_of_int gray) of
              Inl e \<Rightarrow> Inl e
            | Inr d \<Rightarrow> Inr (st1\<lparr>diff_img := d\<rparr>)))))"

text \<open>A \<^verbatim>\<open>for\<close> loop over a list of indices whose body may raise.\<close>

fun for_each :: "nat list \<Rightarrow> (nat \<Rightarrow> 's \<Rightarrow> exc + 's) \<Rightarrow> 's \<Rightarrow> exc + 's" where
  "for_each [] body s = Inr s"
| "for_each (i # is) body s =
     (case body i s of Inl e \<Rightarrow> Inl e | Inr s' \<Rightarrow> for_each is body s')"

definition scan_pixels :: "image \<Rightarrow> image \<Rightarrow> scan \<Rightarrow> exc + scan" where
  "scan_pixels ref_img target_img st =
     for_each [0..<snd (img_size ref_img)]
       (\<lambda>y. for_each [0..<fst (img_size ref_img)] (visit ref_img target_img y)) st"

text \<open>The dictionary \<^verbatim>\<open>compare_screenshots\<close> returns.\<close>

record diff_result =
  total_pixels :: int
  different_pixels :: int
  similarity_percentage :: pyfloat
  max_difference :: int
  passed :: bool

text \<open>
  Lines 140 to 178, on the reference and the candidate after the size check. The first
  component is the image \<^verbatim>\<open>diff_img.save(diff_path)\<close> is called on (line 168); the
  second is the returned dictionary or the exception raised. The save comes before the
  division of line 170, so for a visualization without a pixel its ValueError is the
  outcome and the division is not reached.
\<close>

definition compare_pixels :: "image \<Rightarrow> image \<Rightarrow> image option \<times> (exc + diff_result)" where
  "compare_pixels ref_img target_img =
     (let total = int (fst (img_size ref_img)) * int (snd (img_size ref_img)) in
      case scan_pixels ref_img target_img
             \<lparr>different_cnt = 0, max_diff = 0, diff_img = Image_new (img_size ref_img) (0, 0, 0)\<rparr> of
        Inl e \<Rightarrow> (None, Inl e)
      | Inr st \<Rightarrow>
          (Some (diff_img st),
           case save_check (diff_img st) of
             Inl e \<Rightarrow> Inl e
           | Inr u \<Rightarrow>
          (case int_truediv (total - different_cnt st) total of
             Inl e \<Rightarrow> Inl e
           | Inr q \<Rightarrow>
               (let similarity = float_mul q 100 in
                Inr \<lparr>total_pixels = total,
                     different_pixels = different_cnt st,
                     similarity_percentage = similarity,
                     max_difference = max_diff st,
                     passed = float_ge similarity 95\<rparr>))))"

text \<open>
  \<^verbatim>\<open>compare_screenshots\<close> on the two decoded images: the candidate is resized to the
  reference's size when the sizes differ (lines 136 to 138), then compared. An exception
  of the resize ends the function before anything is saved.
\<close>

definition compare_screenshots ::
  "resampler \<Rightarrow> image \<Rightarrow> image \<Rightarrow> image option \<times> (exc + diff_result)" where
  "compare_screenshots rs ref_img target_img =
     (if img_size ref_img \<noteq> img_size target_img
      then (case resize rs target_img (img_size ref_img) LANCZOS of
              Inl e \<Rightarrow> (None, Inl e)
            | Inr resized \<Rightarrow> compare_pixels ref_img resized)
      else compare_pixels ref_img target_img)"

section \<open>The rendering provider and the test environment\<close>

text \<open>
  The tests drive Playwright and the file system. What those do is not part of the
  repository, so it is a parameter of every test, the \<open>world\<close>: which external calls
  raise (\<open>fault\<close>), what a URL renders to at a viewport (\<open>site\<close>), the full-page raster
  of a rendered document (\<open>render\<close>) and Pillow's resampling kernel. The browser and the
  files the tests touch are the state a test passes along.
\<close>

text \<open>A viewport dictionary \<^verbatim>\<open>{"width": w, "height": h}\<close>.\<close>

record viewport =
  width :: int
  height :: int

text \<open>
  An element as the in-page scripts read it: \<^verbatim>\<open>getComputedStyle(element)\<close> by property
  name, \<^verbatim>\<open>getBoundingClientRect()\<close> by field name, and whether it is visible.
\<close>

record element =
  computed :: "string \<Rightarrow> string"
  rect :: "string \<Rightarrow> rat"
  visible :: bool

text \<open>
  A rendered document: the elements a selector matches, in document order, and
  \<^verbatim>\<open>document.body.scrollWidth\<close>.
\<close>

record document =
  matches :: "string \<Rightarrow> element list"
  scroll_width :: int

datatype stored = Png image | Json diff_result

text \<open>A line the tests print: the similarity report and the warning of a difference.\<close>

datatype line = Similar string string pyfloat | Difference_detected string

record browser =
  next_page :: nat
  open_pages :: "nat set"
  page_viewport :: "nat \<Rightarrow> viewport"
  page_doc :: "nat \<Rightarrow> document"
  files :: "string \<Rightarrow> stored option"
  stdout :: "line list"

text \<open>The external calls, each with the page handle or the path it is made on.\<close>

datatype call =
    NewPage nat
  | Goto nat string
  | WaitForLoadState nat
  | Evaluate nat
  | LocatorCount nat string
  | IsVisible nat string
  | Screenshot nat string
  | Close nat
  | Mkdir string
  | OpenRead string
  | OpenWrite string

record world =
  fault :: "call \<Rightarrow> exc option"
  site :: "string \<Rightarrow> viewport \<Rightarrow> document"
  render :: "document \<Rightarrow> viewport \<Rightarrow> image"
  resample :: resampler

subsection \<open>Statements: state, exceptions, \<^verbatim>\<open>try\<close>\<close>

type_synonym 'a prog = "browser \<Rightarrow> (exc + 'a) \<times> browser"

definition ret :: "'a \<Rightarrow> 'a prog" where
  "ret x = (\<lambda>s. (Inr x, s))"

definition raise :: "exc \<Rightarrow> 'a prog" where
  "raise e = (\<lambda>s. (Inl e, s))"

definition lift :: "exc + 'a \<Rightarrow> 'a prog" where
  "lift r = (\<lambda>s. (r, s))"

definition bnd :: "'a prog \<Rightarrow> ('a \<Rightarrow> 'b prog) \<Rightarrow> 'b prog" where
  "bnd m f = (\<lambda>s. case m s of (Inl e, s') \<Rightarrow> (Inl e, s') | (Inr x, s') \<Rightarrow> f x s')"

definition seq :: "unit prog \<Rightarrow> 'a prog \<Rightarrow> 'a prog" where
  "seq m n = bnd m (\<lambda>u. n)"

text \<open>
  \<^verbatim>\<open>try: body finally: fin\<close>. The \<^verbatim>\<open>finally\<close> block runs whatever the body did; an
  exception it raises replaces the body's outcome.
\<close>

definition try_finally :: "'a prog \<Rightarrow> unit prog \<Rightarrow> 'a prog" where
  "try_finally body fin =
     (\<lambda>s. case body s of
            (r, s') \<Rightarrow> (case fin s' of (Inl e, s'') \<Rightarrow> (Inl e, s'') | (Inr u, s'') \<Rightarrow> (r, s'')))"

text \<open>\<^verbatim>\<open>try: body except: handler\<close>, with a bare \<^verbatim>\<open>except\<close>.\<close>

definition try_except :: "'a prog \<Rightarrow> 'a prog \<Rightarrow> 'a prog" where
  "try_except body handler =
     (\<lambda>s. case body s of (Inl e, s') \<Rightarrow> handler s' | (Inr x, s') \<Rightarrow> (Inr x, s'))"

text \<open>Sequencing of expressions that may raise.\<close>

definition and_then :: "exc + 'a \<Rightarrow> ('a \<Rightarrow> exc + 'b) \<Rightarrow> exc + 'b" where
  "and_then r f = (case r of Inl e \<Rightarrow> Inl e | Inr x \<Rightarrow> f x)"

text \<open>
  \<^verbatim>\<open>assert cond, msg\<close>: the message is evaluated only when the condition is false, and
  evaluating either may raise.
\<close>

definition py_assert :: "exc + bool \<Rightarrow> exc + string \<Rightarrow> unit prog" where
  "py_assert cond msg =
     (case cond of
        Inl e \<Rightarrow> raise e
      | Inr True \<Rightarrow> ret ()
      | Inr False \<Rightarrow> (case msg of Inl e \<Rightarrow> raise e | Inr m \<Rightarrow> raise (AssertionError m)))"

text \<open>An external call: it raises when the world says so, and otherwise runs.\<close>

definition ext :: "world \<Rightarrow> call \<Rightarrow> 'a prog \<Rightarrow> 'a prog" where
  "ext w c m = (case fault w c of Some e \<Rightarrow> raise e | None \<Rightarrow> m)"

subsection \<open>Dictionaries and strings\<close>

text \<open>
  A dictionary the in-page scripts return is an association list; the value the
  extractors return is \<open>None\<close> (JavaScript's \<^verbatim>\<open>null\<close>) or such a dictionary.
  \<open>getitem d k\<close> is \<^verbatim>\<open>d[k]\<close>: TypeError on \<open>None\<close>, KeyError on a missing key.
  \<open>truthy d\<close> is the truth value of \<open>d\<close> in a condition.
\<close>

definition getitem :: "(string \<times> 'v) list option \<Rightarrow> string \<Rightarrow> exc + 'v" where
  "getitem d k =
     (case d of
        None \<Rightarrow> Inl TypeError
      | Some kvs \<Rightarrow> (case map_of kvs k of None \<Rightarrow> Inl KeyError | Some v \<Rightarrow> Inr v))"

definition truthy :: "(string \<times> 'v) list option \<Rightarrow> bool" where
  "truthy d = (case d of None \<Rightarrow> False | Some kvs \<Rightarrow> kvs \<noteq> [])"

text \<open>\<^verbatim>\<open>s.replace(old, new)\<close>: every occurrence, left to right, without overlap.\<close>

fun replace_from :: "nat \<Rightarrow> string \<Rightarrow> string \<Rightarrow> string \<Rightarrow> string" where
  "replace_from k old new [] = []"
| "replace_from (Suc k) old new (c # cs) = replace_from k old new cs"
| "replace_from 0 old new (c # cs) =
     (if prefix old (c # cs) then new @ replace_from (length old - 1) old new cs
      else c # replace_from 0 old new cs)"

definition str_replace :: "string \<Rightarrow> string \<Rightarrow> string \<Rightarrow> string" where
  "str_replace s old new =
     (if old = [] then new @ concat (map (\<lambda>c. c # new) s) else replace_from 0 old new s)"

text \<open>The decimal text of an integer, as an f-string formats it.\<close>

fun digits :: "nat \<Rightarrow> string" where
  "digits n =
     (if n < 10 then [char_of (48 + n)] else digits (n div 10) @ [char_of (48 + n mod 10)])"

definition str_int :: "int \<Rightarrow> string" where
  "str_int i = (if i < 0 then CHR ''-'' # digits (nat (- i)) else digits (nat i))"

text \<open>
  \<^verbatim>\<open>Path\<close>'s \<^verbatim>\<open>/\<close> for a relative name that is not empty, which the names the tests
  join are: no page of \<^verbatim>\<open>TEST_PAGES\<close> is \<^verbatim>\<open>.html\<close> alone, and a page name holds no
  separator once \<^verbatim>\<open>/\<close> is replaced.
\<close>

definition path_join :: "string \<Rightarrow> string \<Rightarrow> string" where
  "path_join d name = d @ ''/'' @ name"

subsection \<open>Playwright and the file system\<close>

text \<open>The document of a page that has not navigated yet.\<close>

definition blank :: document where
  "blank = \<lparr>matches = (\<lambda>sel. []), scroll_width = 0\<rparr>"

text \<open>\<^verbatim>\<open>browser.new_page(viewport=viewport)\<close>: a new handle, open until it is closed.\<close>

definition new_page :: "world \<Rightarrow> viewport \<Rightarrow> nat prog" where
  "new_page w vp =
     (\<lambda>s. ext w (NewPage (next_page s))
            (\<lambda>s. (Inr (next_page s),
                   s\<lparr>next_page := Suc (next_page s),
                     open_pages := insert (next_page s) (open_pages s),
                     page_viewport := (page_viewport s)(next_page s := vp),
                     page_doc := (page_doc s)(next_page s := blank)\<rparr>)) s)"

definition goto :: "world \<Rightarrow> nat \<Rightarrow> string \<Rightarrow> unit prog" where
  "goto w page url =
     ext w (Goto page url)
       (\<lambda>s. (Inr (), s\<lparr>page_doc := (page_doc s)(page := site w url (page_viewport s page))\<rparr>))"

definition wait_for_load_state :: "world \<Rightarrow> nat \<Rightarrow> unit prog" where
  "wait_for_load_state w page = ext w (WaitForLoadState page) (ret ())"

text \<open>\<^verbatim>\<open>page.close()\<close>: the handle is released.\<close>

definition close :: "world \<Rightarrow> nat \<Rightarrow> unit prog" where
  "close w page =
     ext w (Close page) (\<lambda>s. (Inr (), s\<lparr>open_pages := open_pages s - {page}\<rparr>))"

text \<open>\<^verbatim>\<open>page.locator(selector).count()\<close>.\<close>

definition locator_count :: "world \<Rightarrow> nat \<Rightarrow> string \<Rightarrow> nat prog" where
  "locator_count w page selector =
     ext w (LocatorCount page selector) (\<lambda>s. (Inr (length (matches (page_doc s page) selector)), s))"

text \<open>
  \<^verbatim>\<open>page.locator(selector).first.is_visible()\<close>: false when nothing matches.
\<close>

definition is_visible :: "world \<Rightarrow> nat \<Rightarrow> string \<Rightarrow> bool prog" where
  "is_visible w page selector =
     ext w (IsVisible page selector)
       (\<lambda>s. (Inr (case matches (page_doc s page) selector of [] \<Rightarrow> False | e # es \<Rightarrow> visible e), s))"

text \<open>
  \<^verbatim>\<open>page.evaluate(script, arg)\<close>: the script, a function of the page's document, is
  run in the page.
\<close>

definition evaluate :: "world \<Rightarrow> nat \<Rightarrow> (document \<Rightarrow> 'a) \<Rightarrow> 'a prog" where
  "evaluate w page script = ext w (Evaluate page) (\<lambda>s. (Inr (script (page_doc s page)), s))"

text \<open>\<^verbatim>\<open>document.querySelector(selector)\<close>: the first match, or \<^verbatim>\<open>null\<close>.\<close>

definition querySelector :: "document \<Rightarrow> string \<Rightarrow> element option" where
  "querySelector doc selector = (case matches doc selector of [] \<Rightarrow> None | e # es \<Rightarrow> Some e)"

text \<open>\<^verbatim>\<open>page.screenshot(path=path, full_page=True)\<close>.\<close>

definition screenshot :: "world \<Rightarrow> nat \<Rightarrow> string \<Rightarrow> unit prog" where
  "screenshot w page path =
     ext w (Screenshot page path)
       (\<lambda>s. (Inr (), s\<lparr>files := (files s)(path \<mapsto> Png (render w (page_doc s page) (page_viewport s page)))\<rparr>))"

text \<open>\<^verbatim>\<open>output_dir.mkdir(parents=True, exist_ok=True)\<close>; directories are not tracked.\<close>

definition mkdir :: "world \<Rightarrow> string \<Rightarrow> unit prog" where
  "mkdir w path = ext w (Mkdir path) (ret ())"

text \<open>
  \<^verbatim>\<open>Image.open(path).convert('RGB')\<close>. Pillow identifies no file whose width or height
  is not positive, so every image it returns has a pixel.
\<close>

definition Image_open :: "world \<Rightarrow> string \<Rightarrow> image prog" where
  "Image_open w path =
     ext w (OpenRead path)
       (\<lambda>s. case files s path of
               None \<Rightarrow> (Inl FileNotFoundError, s)
             | Some (Png img) \<Rightarrow>
                 (if empty_image img then (Inl UnidentifiedImageError, s) else (Inr img, s))
             | Some (Json r) \<Rightarrow> (Inl UnidentifiedImageError, s))"

text \<open>
  \<^verbatim>\<open>img.save(path)\<close>: the file is opened for writing, then the image is encoded, which
  Pillow refuses for an image without a pixel.
\<close>

definition Image_save :: "world \<Rightarrow> image \<Rightarrow> string \<Rightarrow> unit prog" where
  "Image_save w img path =
     ext w (OpenWrite path)
       (case save_check img of
          Inl e \<Rightarrow> raise e
        | Inr u \<Rightarrow> (\<lambda>s. (Inr (), s\<lparr>files := (files s)(path \<mapsto> Png img)\<rparr>)))"

text \<open>\<^verbatim>\<open>with open(path, "w") as f: json.dump(result, f, indent=2)\<close>.\<close>

definition json_dump :: "world \<Rightarrow> diff_result \<Rightarrow> string \<Rightarrow> unit prog" where
  "json_dump w r path =
     ext w (OpenWrite path) (\<lambda>s. (Inr (), s\<lparr>files := (files s)(path \<mapsto> Json r)\<rparr>))"

definition print :: "line \<Rightarrow> unit prog" where
  "print l = (\<lambda>s. (Inr (), s\<lparr>stdout := stdout s @ [l]\<rparr>))"

section \<open>The extractors: \<^verbatim>\<open>get_computed_styles\<close>, \<^verbatim>\<open>get_element_position\<close>\<close>

text \<open>The two in-page scripts (lines 64 to 84 and 90 to 104).\<close>

definition computed_styles_script :: "string \<Rightarrow> document \<Rightarrow> (string \<times> string) list option" where
  "computed_styles_script selector doc =
     (case querySelector doc selector of
        None \<Rightarrow> None
      | Some element \<Rightarrow>
          Some [(''fontFamily'', computed element ''fontFamily''),
                (''fontSize'', computed element ''fontSize''),
                (''fontWeight'', computed element ''fontWeight''),
                (''color'', computed element ''color''),
                (''backgroundColor'', computed element ''backgroundColor''),
                (''display'', computed element ''display''),
                (''position'', computed element ''position''),
                (''width'', computed element ''width''),
                (''height'', computed element ''height''),
                (''marginTop'', computed element ''marginTop''),
                (''marginBottom'', computed element ''marginBottom''),
                (''paddingTop'', computed element ''paddingTop''),
                (''paddingBottom'', computed element ''paddingBottom''),
                (''textAlign'', computed element ''textAlign'')])"

definition element_position_script :: "string \<Rightarrow> document \<Rightarrow> (string \<times> rat) list option" where
  "element_position_script selector doc =
     (case querySelector doc selector of
        None \<Rightarrow> None
      | Some element \<Rightarrow>
          Some [(''x'', rect element ''x''),
                (''y'', rect element ''y''),
                (''width'', rect element ''width''),
                (''height'', rect element ''height''),
                (''top'', rect element ''top''),
                (''left'', rect element ''left''),
                (''right'', rect element ''right''),
                (''bottom'', rect element ''bottom'')])"

definition get_computed_styles ::
  "world \<Rightarrow> nat \<Rightarrow> string \<Rightarrow> (string \<times> string) list option prog" where
  "get_computed_styles w page selector = evaluate w page (computed_styles_script selector)"

definition get_element_position ::
  "world \<Rightarrow> nat \<Rightarrow> string \<Rightarrow> (string \<times> rat) list option prog" where
  "get_element_position w page selector = evaluate w page (element_position_script selector)"

definition check_element_visible :: "world \<Rightarrow> nat \<Rightarrow> string \<Rightarrow> bool prog" where
  "check_element_visible w page selector = try_except (is_visible w page selector) (ret False)"

text \<open>
  \<^verbatim>\<open>compare_screenshots(ref_path, target_path, diff_path)\<close> with its file accesses: both
  images are opened, the visualization is saved, the dictionary is returned.
\<close>

definition compare_screenshot_files :: "world \<Rightarrow> string \<Rightarrow> string \<Rightarrow> string \<Rightarrow> diff_result prog" where
  "compare_screenshot_files w ref_path target_path diff_path =
     bnd (Image_open w ref_path) (\<lambda>ref_img.
     bnd (Image_open w target_path) (\<lambda>target_img.
     (case compare_screenshots (resample w) ref_img target_img of
        (None, outcome) \<Rightarrow> lift outcome
      | (Some vis, outcome) \<Rightarrow> seq (Image_save w vis diff_path) (lift outcome))))"

section \<open>The test matrix\<close>

definition REFERENCE_URL :: string where
  "REFERENCE_URL = ''file:///Users/bino/Downloads/us.sitesucker.mac.sitesucker/mdcattaneo.github.io''"

definition TARGET_URL :: string where
  "TARGET_URL = ''http://localhost:4040''"

definition OUTPUT_DIR :: string where
  "OUTPUT_DIR = ''/Users/bino/Downloads/cattaneo/test_results''"

text \<open>The dictionary \<^verbatim>\<open>VIEWPORTS\<close>, in the order of its items.\<close>

definition VIEWPORTS :: "(string \<times> viewport) list" where
  "VIEWPORTS =
     [(''mobile'', \<lparr>width = 375, height = 667\<rparr>),
      (''tablet'', \<lparr>width = 768, height = 1024\<rparr>),
      (''desktop'', \<lparr>width = 1440, height = 900\<rparr>),
      (''wide'', \<lparr>width = 1920, height = 1080\<rparr>)]"

definition TEST_PAGES :: "string list" where
  "TEST_PAGES =
     [''index.html'', ''publications/index.html'', ''research/index.html'',
      ''software/index.html'', ''students/index.html'', ''teaching/index.html'',
      ''short-courses/index.html'', ''talks/index.html'', ''service/index.html'']"

text \<open>
  The parameter lists of the two viewport-gated tests (lines 237 and 339):
  \<^verbatim>\<open>[(k, v) for k, v in VIEWPORTS.items() if v["width"] >= 992]\<close> and the same with 640.
\<close>

definition fixed_position_viewports :: "(string \<times> viewport) list" where
  "fixed_position_viewports = filter (\<lambda>(k, v). 992 \<le> width v) VIEWPORTS"

definition two_column_viewports :: "(string \<times> viewport) list" where
  "two_column_viewports = filter (\<lambda>(k, v). 640 \<le> width v) VIEWPORTS"

text \<open>
  \<^verbatim>\<open>@pytest.mark.parametrize("viewport_name,viewport", params)\<close>: one test case for each
  parameter, and none for a viewport that is not in the list.
\<close>

definition parametrize ::
  "(string \<Rightarrow> viewport \<Rightarrow> unit prog) \<Rightarrow> (string \<times> viewport) list \<Rightarrow> (string \<times> unit prog) list" where
  "parametrize test params = map (\<lambda>(k, v). (k, test k v)) params"

subsection \<open>\<^verbatim>\<open>TestHeaderLayout\<close>\<close>

definition test_header_exists :: "world \<Rightarrow> string \<Rightarrow> viewport \<Rightarrow> unit prog" where
  "test_header_exists w viewport_name viewport =
     bnd (new_page w viewport) (\<lambda>page_ref.
     bnd (new_page w viewport) (\<lambda>page_target.
     try_finally
       (seq (goto w page_ref (REFERENCE_URL @ ''/index.html''))
       (seq (goto w page_target (TARGET_URL @ ''/index.html''))
       (bnd (locator_count w page_ref ''header'') (\<lambda>n_ref.
        seq (py_assert (Inr (0 < n_ref)) (Inr ''Reference site missing header''))
       (bnd (locator_count w page_target ''header'') (\<lambda>n_target.
        py_assert (Inr (0 < n_target)) (Inr ''Target site missing header'')))))))
       (seq (close w page_ref) (close w page_target))))"

text \<open>
  The condition \<^verbatim>\<open>styles and "rgb(18, 18, 18)" in styles["backgroundColor"]\<close> and the
  message \<^verbatim>\<open>f"... header not dark gray: {styles['backgroundColor']}"\<close>.
\<close>

definition dark_gray :: "(string \<times> string) list option \<Rightarrow> exc + bool" where
  "dark_gray styles =
     (if truthy styles
      then and_then (getitem styles ''backgroundColor'') (\<lambda>bg. Inr (sublist ''rgb(18, 18, 18)'' bg))
      else Inr False)"

definition not_dark_gray_message :: "string \<Rightarrow> (string \<times> string) list option \<Rightarrow> exc + string" where
  "not_dark_gray_message origin styles =
     and_then (getitem styles ''backgroundColor'')
       (\<lambda>bg. Inr (origin @ '' header not dark gray: '' @ bg))"

definition test_header_background_color :: "world \<Rightarrow> string \<Rightarrow> viewport \<Rightarrow> unit prog" where
  "test_header_background_color w viewport_name viewport =
     bnd (new_page w viewport) (\<lambda>page_ref.
     bnd (new_page w viewport) (\<lambda>page_target.
     try_finally
       (seq (goto w page_ref (REFERENCE_URL @ ''/index.html''))
       (seq (goto w page_target (TARGET_URL @ ''/index.html''))
       (bnd (get_computed_styles w page_ref ''header'') (\<lambda>ref_styles.
        bnd (get_computed_styles w page_target ''header'') (\<lambda>target_styles.
        seq (py_assert (dark_gray ref_styles) (not_dark_gray_message ''Reference'' ref_styles))
            (py_assert (dark_gray target_styles) (not_dark_gray_message ''Target'' target_styles)))))))
       (seq (close w page_ref) (close w page_target))))"

definition test_header_fixed_position_desktop :: "world \<Rightarrow> string \<Rightarrow> viewport \<Rightarrow> unit prog" where
  "test_header_fixed_position_desktop w viewport_name viewport =
     bnd (new_page w viewport) (\<lambda>page.
     try_finally
       (seq (goto w page (TARGET_URL @ ''/index.html''))
       (seq (wait_for_load_state w page)
       (bnd (get_computed_styles w page ''header'') (\<lambda>styles.
        py_assert
          (and_then (getitem styles ''position'') (\<lambda>position. Inr (position = ''fixed'')))
          (and_then (getitem styles ''position'')
             (\<lambda>position. Inr (''Header should be fixed on '' @ viewport_name @ '', got '' @ position)))))))
       (close w page))"

subsection \<open>\<^verbatim>\<open>TestLayout\<close>\<close>

definition test_main_content_exists :: "world \<Rightarrow> string \<Rightarrow> viewport \<Rightarrow> unit prog" where
  "test_main_content_exists w viewport_name viewport =
     bnd (new_page w viewport) (\<lambda>page.
     try_finally
       (seq (goto w page (TARGET_URL @ ''/index.html''))
       (bnd (locator_count w page ''main'') (\<lambda>n.
        py_assert (Inr (0 < n)) (Inr (''Main content missing on '' @ viewport_name)))))
       (close w page))"

definition test_homepage_two_column_layout :: "world \<Rightarrow> string \<Rightarrow> viewport \<Rightarrow> unit prog" where
  "test_homepage_two_column_layout w viewport_name viewport =
     bnd (new_page w viewport) (\<lambda>page.
     try_finally
       (seq (goto w page (TARGET_URL @ ''/index.html''))
       (seq (wait_for_load_state w page)
       (bnd (check_element_visible w page ''aside'') (\<lambda>aside_visible.
        bnd (check_element_visible w page ''article'') (\<lambda>article_visible.
        seq (py_assert (Inr aside_visible) (Inr (''Sidebar not visible on '' @ viewport_name)))
       (seq (py_assert (Inr article_visible) (Inr (''Article not visible on '' @ viewport_name)))
       (bnd (get_element_position w page ''aside'') (\<lambda>aside_pos.
        bnd (get_element_position w page ''article'') (\<lambda>article_pos.
        if truthy aside_pos \<and> truthy article_pos
        then py_assert
               (and_then (getitem aside_pos ''left'') (\<lambda>aside_left.
                and_then (getitem article_pos ''left'') (\<lambda>article_left.
                Inr (aside_left < article_left))))
               (Inr ''Aside should be to the left of article'')
        else ret ())))))))))
       (close w page))"

subsection \<open>\<^verbatim>\<open>TestScreenshotComparison\<close>\<close>

definition test_page_screenshot_similarity ::
  "world \<Rightarrow> string \<Rightarrow> string \<Rightarrow> viewport \<Rightarrow> unit prog" where
  "test_page_screenshot_similarity w page_path viewport_name viewport =
     bnd (new_page w viewport) (\<lambda>page_ref.
     bnd (new_page w viewport) (\<lambda>page_target.
     (let page_name = str_replace (str_replace page_path ''/'' ''_'') ''.html'' [];
          output_dir = path_join (path_join OUTPUT_DIR page_name) viewport_name
      in
      seq (mkdir w output_dir)
     (try_finally
       (seq (goto w page_ref (REFERENCE_URL @ ''/'' @ page_path))
       (seq (goto w page_target (TARGET_URL @ ''/'' @ page_path))
       (seq (wait_for_load_state w page_ref)
       (seq (wait_for_load_state w page_target)
       (let ref_screenshot = path_join output_dir ''reference.png'';
            target_screenshot = path_join output_dir ''target.png'';
            diff_screenshot = path_join output_dir ''diff.png''
        in
        seq (screenshot w page_ref ref_screenshot)
       (seq (screenshot w page_target target_screenshot)
       (bnd (compare_screenshot_files w ref_screenshot target_screenshot diff_screenshot) (\<lambda>result.
        seq (json_dump w result (path_join output_dir ''comparison_result.json''))
       (seq (print (Similar page_name viewport_name (similarity_percentage result)))
            (if \<not> passed result then print (Difference_detected diff_screenshot) else ret ()))))))))))
       (seq (close w page_ref) (close w page_target))))))"

subsection \<open>\<^verbatim>\<open>TestResponsiveBreakpoints\<close>\<close>

definition test_content_readable_at_all_sizes :: "world \<Rightarrow> string \<Rightarrow> viewport \<Rightarrow> unit prog" where
  "test_content_readable_at_all_sizes w viewport_name viewport =
     bnd (new_page w viewport) (\<lambda>page.
     try_finally
       (seq (goto w page (TARGET_URL @ ''/index.html''))
       (bnd (evaluate w page scroll_width) (\<lambda>body_width.
        (let viewport_width = width viewport in
         py_assert (Inr (body_width \<le> viewport_width + 15))
           (Inr (''Horizontal overflow on '' @ viewport_name @ '': body='' @ str_int body_width @
                 ''px, viewport='' @ str_int viewport_width @ ''px''))))))
       (close w page))"

section \<open>Fixtures\<close>

text \<open>
  A browser that has just been launched, and worlds to run the tests in: in
  \<open>still_world\<close> no call raises, every URL renders to the blank document and every
  screenshot is one black pixel; in \<open>drifted_world\<close> the candidate renders white where
  the reference renders black; in \<open>readonly_world\<close> the output directory cannot be
  created.
\<close>

definition fresh :: browser where
  "fresh = \<lparr>next_page = 0, open_pages = {},
            page_viewport = (\<lambda>p. \<lparr>width = 1280, height = 720\<rparr>),
            page_doc = (\<lambda>p. blank), files = (\<lambda>path. None), stdout = []\<rparr>"

definition still_world :: world where
  "still_world =
     \<lparr>fault = (\<lambda>c. None), site = (\<lambda>url vp. blank),
      render = (\<lambda>doc vp. Image_new (1, 1) (0, 0, 0)),
      resample = (\<lambda>flt img sz p. (0, 0, 0))\<rparr>"

definition drifted_world :: world where
  "drifted_world =
     \<lparr>fault = (\<lambda>c. None),
      site = (\<lambda>url vp. if prefix TARGET_URL url then blank\<lparr>scroll_width := 1\<rparr> else blank),
      render = (\<lambda>doc vp. Image_new (1, 1)
                  (if scroll_width doc = 0 then (0, 0, 0) else (255, 255, 255))),
      resample = (\<lambda>flt img sz p. (0, 0, 0))\<rparr>"

text \<open>The still world in which one call raises.\<close>

definition faulty :: "call \<Rightarrow> exc \<Rightarrow> world" where
  "faulty c e = still_world\<lparr>fault := (\<lambda>c'. if c' = c then Some e else None)\<rparr>"

definition readonly_world :: world where
  "readonly_world =
     \<lparr>fault = (\<lambda>c. case c of Mkdir d \<Rightarrow> Some OSError | _ \<Rightarrow> None),
      site = (\<lambda>url vp. blank),
      render = (\<lambda>doc vp. Image_new (1, 1) (0, 0, 0)),
      resample = (\<lambda>flt img sz p. (0, 0, 0))\<rparr>"

section \<open>Predicates the statements use\<close>

text \<open>
  What the loop body writes to the visualization at a coordinate: pure red for a
  different pixel, the gray level of the candidate otherwise. Used to state the loop's result.
\<close>

definition shade :: "image \<Rightarrow> image \<Rightarrow> nat \<times> nat \<Rightarrow> pixel" where
  "shade ref_img target_img p =
     (if 30 < pixel_diff (img_data ref_img p) (img_data target_img p) then (255, 0, 0)
      else (word_of_int (gray_level (img_data target_img p)),
            word_of_int (gray_level (img_data target_img p)),
            word_of_int (gray_level (img_data target_img p))))"

abbreviation pdiff :: "image \<Rightarrow> image \<Rightarrow> nat \<times> nat \<Rightarrow> int" where
  "pdiff ref_img target_img p \<equiv> pixel_diff (img_data ref_img p) (img_data target_img p)"


text \<open>
  A statement keeps the set of open handles, and a statement never raises an
  AssertionError; a world in which no external call raises one.
\<close>

definition keeps_pages :: "'a prog \<Rightarrow> bool" where
  "keeps_pages m = (\<forall>s. open_pages (snd (m s)) = open_pages s)"

definition never_asserts :: "'a prog \<Rightarrow> bool" where
  "never_asserts m = (\<forall>s msg. fst (m s) \<noteq> Inl (AssertionError msg))"

definition no_assertion_fault :: "world \<Rightarrow> bool" where
  "no_assertion_fault w = (\<forall>c msg. fault w c \<noteq> Some (AssertionError msg))"

named_theorems keeps

named_theorems na

section \<open>Floats: the quotients the differ computes\<close>

lemma pow2_pos: "0 < pow2 e"
  by (simp add: pow2_def)

lemma pow2_le_one: "e \<le> 0 \<Longrightarrow> pow2 e \<le> 1"
  by (simp add: pow2_def divide_le_eq)

lemma round_half_even_nonneg: "0 \<le> q \<Longrightarrow> 0 \<le> round_half_even q"
  by (auto simp: round_half_even_def Let_def)

lemma round_half_even_upper: "of_int (round_half_even q) \<le> q + 1"
  by (auto simp: round_half_even_def Let_def) linarith+

lemma bitlen_mono: "a \<le> b \<Longrightarrow> bitlen a \<le> bitlen b"
  by (simp add: bitlen_def floorlog_mono)

lemma quotient_of_le_one:
  assumes "q \<le> 1"
  shows "fst (quotient_of q) \<le> snd (quotient_of q)"
proof -
  obtain n m where nm: "quotient_of q = (n, m)" by (cases "quotient_of q")
  then have m: "0 < m" by (rule quotient_of_denom_pos)
  have "q = of_int n / of_int m" using nm by (rule quotient_of_div)
  with assms m have "of_int n \<le> (of_int m :: rat)" by (simp add: divide_le_eq)
  then show ?thesis using nm by simp
qed

lemma ulp_exponent_unit:
  assumes "0 \<le> q" "q \<le> 1"
  shows "ulp_exponent q \<le> 0"
proof -
  have "fst (quotient_of \<bar>q\<bar>) \<le> snd (quotient_of \<bar>q\<bar>)"
    using assms by (intro quotient_of_le_one) simp
  then have "bitlen (fst (quotient_of \<bar>q\<bar>)) - bitlen (snd (quotient_of \<bar>q\<bar>)) \<le> 0"
    using bitlen_mono by fastforce
  then show ?thesis
    by (simp add: ulp_exponent_def Let_def)
qed

lemma binary64_unit:
  assumes "0 \<le> q" "q \<le> 1"
  shows "0 \<le> binary64 q \<and> binary64 q \<le> 2"
proof (cases "q = 0")
  case True
  then show ?thesis by (simp add: binary64_def)
next
  case False
  let ?p = "pow2 (ulp_exponent q)"
  have p: "0 < ?p" "?p \<le> 1"
    using assms by (simp_all add: pow2_pos pow2_le_one ulp_exponent_unit)
  have "0 \<le> q / ?p" using assms p by simp
  then have lo: "0 \<le> round_half_even (q / ?p)" by (rule round_half_even_nonneg)
  have "of_int (round_half_even (q / ?p)) * ?p \<le> (q / ?p + 1) * ?p"
    using p round_half_even_upper [of "q / ?p"] by (intro mult_right_mono) simp_all
  also have "\<dots> = q + ?p" using p by (simp add: field_simps)
  also have "\<dots> \<le> 2" using assms p by simp
  finally have hi: "of_int (round_half_even (q / ?p)) * ?p \<le> 2" .
  show ?thesis using False lo hi p by (simp add: binary64_def)
qed

lemma to_float_unit:
  assumes "0 \<le> q" "q \<le> 1"
  shows "to_float q = Finite (binary64 q)"
proof -
  have "(2::rat) < 2 ^ 1024" by (rule order_less_le_trans [of _ "2 ^ 2"]) simp_all
  with binary64_unit [OF assms] show ?thesis
    by (simp add: to_float_def Let_def)
qed

lemma int_truediv_total:
  assumes "0 < t" "0 \<le> d" "d \<le> t"
  shows "int_truediv (t - d) t = Inr (binary64 (of_int (t - d) / of_int t))"
proof -
  have "0 \<le> (of_int (t - d) / of_int t :: rat)" "(of_int (t - d) / of_int t :: rat) \<le> 1"
    using assms by (simp_all add: divide_le_eq)
  then show ?thesis
    using assms by (simp add: int_truediv_def to_float_unit)
qed

lemma binary64_one: "binary64 1 = 1"
  by code_simp

lemma binary64_hundred: "binary64 100 = 100"
  by code_simp

lemma float_mul_one_hundred: "float_mul 1 100 = Finite 100"
proof -
  have "(100::rat) < 2 ^ 1024" by (rule order_less_le_trans [of _ "2 ^ 7"]) simp_all
  then show ?thesis by (simp add: float_mul_def to_float_def binary64_hundred)
qed

lemma float_mul_zero_hundred: "float_mul 0 100 = Finite 0"
  by (simp add: float_mul_def to_float_def binary64_def)

lemma float_ge_tests: "float_ge (Finite 100) 95" "\<not> float_ge (Finite 0) 95"
  by simp_all

section \<open>The pixel loop in closed form\<close>

lemma visit_in_range:
  assumes "in_image ref_img (x, y)" "in_image target_img (x, y)" "in_image (diff_img st) (x, y)"
  shows "visit ref_img target_img y x st =
    Inr \<lparr>different_cnt = different_cnt st + (if 30 < pdiff ref_img target_img (x, y) then 1 else 0),
         max_diff = max (max_diff st) (pdiff ref_img target_img (x, y)),
         diff_img = (diff_img st)\<lparr>img_data := (img_data (diff_img st))((x, y) := shade ref_img target_img (x, y))\<rparr>\<rparr>"
  using assms by (simp add: visit_def getpixel_def putpixel_def shade_def Let_def)

lemma row_scan:
  assumes "\<forall>x \<in> set xs. in_image ref_img (x, y) \<and> in_image target_img (x, y) \<and> in_image (diff_img st) (x, y)"
  shows "for_each xs (visit ref_img target_img y) st =
    Inr \<lparr>different_cnt = different_cnt st + int (length (filter (\<lambda>x. 30 < pdiff ref_img target_img (x, y)) xs)),
         max_diff = fold (\<lambda>x m. max m (pdiff ref_img target_img (x, y))) xs (max_diff st),
         diff_img = (diff_img st)\<lparr>img_data := (\<lambda>p. if snd p = y \<and> fst p \<in> set xs then shade ref_img target_img p else img_data (diff_img st) p)\<rparr>\<rparr>"
  using assms
proof (induction xs arbitrary: st)
  case Nil
  then show ?case by simp
next
  case (Cons x xs)
  let ?st1 = "\<lparr>different_cnt = different_cnt st + (if 30 < pdiff ref_img target_img (x, y) then 1 else 0),
         max_diff = max (max_diff st) (pdiff ref_img target_img (x, y)),
         diff_img = (diff_img st)\<lparr>img_data := (img_data (diff_img st))((x, y) := shade ref_img target_img (x, y))\<rparr>\<rparr>"
  have v: "visit ref_img target_img y x st = Inr ?st1"
    using Cons.prems by (simp add: visit_in_range)
  have inv: "\<forall>x \<in> set xs. in_image ref_img (x, y) \<and> in_image target_img (x, y) \<and> in_image (diff_img ?st1) (x, y)"
    using Cons.prems by (simp add: in_image_def)
  show ?case
    unfolding for_each.simps v sum.case Cons.IH [OF inv]
    by (auto simp: fun_eq_iff)
qed

lemma rows_scan:
  assumes "\<forall>y \<in> set ys. \<forall>x < w. in_image ref_img (x, y) \<and> in_image target_img (x, y) \<and> in_image (diff_img st) (x, y)"
  shows "for_each ys (\<lambda>y. for_each [0..<w] (visit ref_img target_img y)) st =
    Inr \<lparr>different_cnt = different_cnt st +
           int (sum_list (map (\<lambda>y. length (filter (\<lambda>x. 30 < pdiff ref_img target_img (x, y)) [0..<w])) ys)),
         max_diff = fold (\<lambda>y. fold (\<lambda>x m. max m (pdiff ref_img target_img (x, y))) [0..<w]) ys (max_diff st),
         diff_img = (diff_img st)\<lparr>img_data := (\<lambda>p. if snd p \<in> set ys \<and> fst p < w then shade ref_img target_img p else img_data (diff_img st) p)\<rparr>\<rparr>"
  using assms
proof (induction ys arbitrary: st)
  case Nil
  then show ?case by simp
next
  case (Cons y ys)
  let ?st1 = "\<lparr>different_cnt = different_cnt st + int (length (filter (\<lambda>x. 30 < pdiff ref_img target_img (x, y)) [0..<w])),
         max_diff = fold (\<lambda>x m. max m (pdiff ref_img target_img (x, y))) [0..<w] (max_diff st),
         diff_img = (diff_img st)\<lparr>img_data := (\<lambda>p. if snd p = y \<and> fst p \<in> set [0..<w] then shade ref_img target_img p else img_data (diff_img st) p)\<rparr>\<rparr>"
  have r: "for_each [0..<w] (visit ref_img target_img y) st = Inr ?st1"
    using Cons.prems by (intro row_scan) simp
  have inv: "\<forall>y \<in> set ys. \<forall>x < w. in_image ref_img (x, y) \<and> in_image target_img (x, y) \<and> in_image (diff_img ?st1) (x, y)"
    using Cons.prems by (simp add: in_image_def)
  show ?case
    unfolding for_each.simps r sum.case Cons.IH [OF inv]
    by (auto simp: fun_eq_iff)
qed


lemma count_rows_card:
  "sum_list (map (\<lambda>y. length (filter (\<lambda>x. P (x, y)) [0..<w])) [0..<h]) =
     card {p. fst p < w \<and> snd p < h \<and> P p}"
proof (induction h)
  case 0
  then show ?case by simp
next
  case (Suc h)
  let ?row = "(\<lambda>x. (x, h)) ` {x. x < w \<and> P (x, h)}"
  let ?old = "{p. fst p < w \<and> snd p < h \<and> P p}"
  have fin_row: "finite ?row" by simp
  have "?old \<subseteq> {..<w} \<times> {..<h}" by auto
  then have fin_old: "finite ?old" by (rule finite_subset) simp
  have split: "{p. fst p < w \<and> snd p < Suc h \<and> P p} = ?old \<union> ?row"
    by (auto simp: less_Suc_eq)
  have disj: "?old \<inter> ?row = {}" by auto
  have "{i. i < w \<and> P ([0..<w] ! i, h)} = {x. x < w \<and> P (x, h)}"
    by auto
  then have "length (filter (\<lambda>x. P (x, h)) [0..<w]) = card {x. x < w \<and> P (x, h)}"
    by (simp add: length_filter_conv_card)
  also have "\<dots> = card ?row"
    by (simp add: card_image inj_on_def)
  finally have row: "length (filter (\<lambda>x. P (x, h)) [0..<w]) = card ?row" .
  show ?case
    using Suc.IH row by (simp add: split card_Un_disjoint [OF fin_old fin_row disj])
qed

lemma scan_pixels_same_size:
  assumes "img_size target_img = img_size ref_img"
  shows "scan_pixels ref_img target_img
           \<lparr>different_cnt = 0, max_diff = 0, diff_img = Image_new (img_size ref_img) (0, 0, 0)\<rparr> =
    Inr \<lparr>different_cnt = int (card {p. in_image ref_img p \<and> 30 < pdiff ref_img target_img p}),
         max_diff = fold (\<lambda>y. fold (\<lambda>x m. max m (pdiff ref_img target_img (x, y))) [0..<fst (img_size ref_img)])
                      [0..<snd (img_size ref_img)] 0,
         diff_img = \<lparr>img_size = img_size ref_img,
                     img_data = (\<lambda>p. if in_image ref_img p then shade ref_img target_img p else (0, 0, 0))\<rparr>\<rparr>"
proof -
  let ?st0 = "\<lparr>different_cnt = 0, max_diff = 0, diff_img = Image_new (img_size ref_img) (0, 0, 0)\<rparr>"
  have inv: "\<forall>y \<in> set [0..<snd (img_size ref_img)]. \<forall>x < fst (img_size ref_img).
      in_image ref_img (x, y) \<and> in_image target_img (x, y) \<and> in_image (diff_img ?st0) (x, y)"
    using assms by (simp add: in_image_def Image_new_def)
  have card: "sum_list (map (\<lambda>y. length (filter (\<lambda>x. 30 < pdiff ref_img target_img (x, y)) [0..<fst (img_size ref_img)]))
                  [0..<snd (img_size ref_img)]) =
      card {p. in_image ref_img p \<and> 30 < pdiff ref_img target_img p}"
    using count_rows_card [of "\<lambda>p. 30 < pdiff ref_img target_img p"
        "fst (img_size ref_img)" "snd (img_size ref_img)"]
    by (simp add: in_image_def conj_assoc)
  show ?thesis
    unfolding scan_pixels_def rows_scan [OF inv] card
    by (auto simp: Image_new_def in_image_def fun_eq_iff)
qed


section \<open>Properties of the raster differ\<close>

lemma gray_level_range: "0 \<le> gray_level p \<and> gray_level p < 256"
proof -
  obtain r g b where p: "p = (r, g, b)" by (cases p)
  have "uint r < 256" "uint g < 256" "uint b < 256" "0 \<le> uint r" "0 \<le> uint g" "0 \<le> uint b"
    using uint_bounded [of r] uint_bounded [of g] uint_bounded [of b] by simp_all
  then show ?thesis unfolding p gray_level.simps by linarith
qed

lemma uint_gray: "uint (word_of_int (gray_level p) :: 8 word) = gray_level p"
  using gray_level_range [of p] by (simp add: uint_word_of_int)

lemma pixel_diff_channels:
  "pixel_diff p q =
     (case (p, q) of
        ((r1, g1, b1), (r2, g2, b2)) \<Rightarrow>
          \<bar>uint r1 - uint r2\<bar> + \<bar>uint g1 - uint g2\<bar> + \<bar>uint b1 - uint b2\<bar>)"
  by (cases p rule: prod_cases3; cases q rule: prod_cases3) simp

lemma pixel_diff_self: "pixel_diff p p = 0"
  by (cases p) simp

lemma compare_pixels_same_size:
  assumes "img_size target_img = img_size ref_img"
  shows "compare_pixels ref_img target_img =
    (Some \<lparr>img_size = img_size ref_img,
           img_data = (\<lambda>p. if in_image ref_img p then shade ref_img target_img p else (0, 0, 0))\<rparr>,
     if empty_image ref_img then Inl ValueError
     else
     case int_truediv
            (int (fst (img_size ref_img)) * int (snd (img_size ref_img)) -
               int (card {p. in_image ref_img p \<and> 30 < pdiff ref_img target_img p}))
            (int (fst (img_size ref_img)) * int (snd (img_size ref_img))) of
       Inl e \<Rightarrow> Inl e
     | Inr q \<Rightarrow>
         Inr \<lparr>total_pixels = int (fst (img_size ref_img)) * int (snd (img_size ref_img)),
              different_pixels = int (card {p. in_image ref_img p \<and> 30 < pdiff ref_img target_img p}),
              similarity_percentage = float_mul q 100,
              max_difference =
                fold (\<lambda>y. fold (\<lambda>x m. max m (pdiff ref_img target_img (x, y))) [0..<fst (img_size ref_img)])
                  [0..<snd (img_size ref_img)] 0,
              passed = float_ge (float_mul q 100) 95\<rparr>)"
  unfolding compare_pixels_def scan_pixels_same_size [OF assms]
  by (simp add: Let_def save_check_def empty_image_def split: sum.splits)

lemma compare_pixels_positive:
  assumes "img_size target_img = img_size ref_img" and "\<not> empty_image ref_img"
  shows "compare_pixels ref_img target_img =
    (Some \<lparr>img_size = img_size ref_img,
           img_data = (\<lambda>p. if in_image ref_img p then shade ref_img target_img p else (0, 0, 0))\<rparr>,
     case int_truediv
            (int (fst (img_size ref_img)) * int (snd (img_size ref_img)) -
               int (card {p. in_image ref_img p \<and> 30 < pdiff ref_img target_img p}))
            (int (fst (img_size ref_img)) * int (snd (img_size ref_img))) of
       Inl e \<Rightarrow> Inl e
     | Inr q \<Rightarrow>
         Inr \<lparr>total_pixels = int (fst (img_size ref_img)) * int (snd (img_size ref_img)),
              different_pixels = int (card {p. in_image ref_img p \<and> 30 < pdiff ref_img target_img p}),
              similarity_percentage = float_mul q 100,
              max_difference =
                fold (\<lambda>y. fold (\<lambda>x m. max m (pdiff ref_img target_img (x, y))) [0..<fst (img_size ref_img)])
                  [0..<snd (img_size ref_img)] 0,
              passed = float_ge (float_mul q 100) 95\<rparr>)"
  using assms(2) by (simp add: compare_pixels_same_size [OF assms(1)])

lemma card_different_le:
  "int (card {p. in_image ref_img p \<and> P p}) \<le> int (fst (img_size ref_img)) * int (snd (img_size ref_img))"
proof -
  have "{p. in_image ref_img p \<and> P p} \<subseteq> {..<fst (img_size ref_img)} \<times> {..<snd (img_size ref_img)}"
    by (auto simp: in_image_def)
  then have "card {p. in_image ref_img p \<and> P p} \<le> card ({..<fst (img_size ref_img)} \<times> {..<snd (img_size ref_img)})"
    by (intro card_mono) simp_all
  then have "card {p. in_image ref_img p \<and> P p} \<le> fst (img_size ref_img) * snd (img_size ref_img)"
    by simp
  then show ?thesis by (metis of_nat_le_iff of_nat_mult)
qed

lemma card_in_image:
  "card {p. in_image ref_img p} = fst (img_size ref_img) * snd (img_size ref_img)"
proof -
  have "{p. in_image ref_img p} = {..<fst (img_size ref_img)} \<times> {..<snd (img_size ref_img)}"
    by (auto simp: in_image_def)
  then show ?thesis by simp
qed

lemma compare_pixels_returns:
  assumes "0 < fst (img_size ref_img)" and "0 < snd (img_size ref_img)"
  shows "\<exists>q. int_truediv
            (int (fst (img_size ref_img)) * int (snd (img_size ref_img)) -
               int (card {p. in_image ref_img p \<and> 30 < pdiff ref_img target_img p}))
            (int (fst (img_size ref_img)) * int (snd (img_size ref_img))) = Inr q"
proof -
  have "0 < int (fst (img_size ref_img)) * int (snd (img_size ref_img))"
    using assms by simp
  then have "int_truediv
            (int (fst (img_size ref_img)) * int (snd (img_size ref_img)) -
               int (card {p. in_image ref_img p \<and> 30 < pdiff ref_img target_img p}))
            (int (fst (img_size ref_img)) * int (snd (img_size ref_img))) =
          Inr (binary64 (of_int (int (fst (img_size ref_img)) * int (snd (img_size ref_img)) -
               int (card {p. in_image ref_img p \<and> 30 < pdiff ref_img target_img p})) /
             of_int (int (fst (img_size ref_img)) * int (snd (img_size ref_img)))))"
    by (rule int_truediv_total) (simp_all add: card_different_le)
  then show ?thesis by blast
qed

lemma int_truediv_self: "0 < t \<Longrightarrow> int_truediv t t = Inr 1"
  using int_truediv_total [of t 0] by (simp add: binary64_one)

lemma int_truediv_zero: "0 < t \<Longrightarrow> int_truediv 0 t = Inr 0"
  using int_truediv_total [of t t] by (simp add: binary64_def)

text \<open>
  On a reference with a pixel the candidate that is compared has the reference's size:
  it is the candidate itself, or the resized one.
\<close>

lemma compare_screenshots_nonempty:
  assumes "\<not> empty_image ref_img"
  shows "\<exists>cand. img_size cand = img_size ref_img \<and>
     compare_screenshots rs ref_img target_img = compare_pixels ref_img cand"
proof (cases "img_size ref_img = img_size target_img")
  case True
  then show ?thesis
    by (intro exI [of _ target_img]) (simp add: compare_screenshots_def)
next
  case False
  then show ?thesis
    using assms
    by (intro exI [of _ "\<lparr>img_size = img_size ref_img,
          img_data = rs LANCZOS target_img (img_size ref_img)\<rparr>"])
       (simp add: compare_screenshots_def resize_def empty_image_def)
qed

text \<open>
  On a reference without a pixel the function raises the ValueError of Pillow: that of
  \<^verbatim>\<open>resize\<close> when the sizes differ, that of \<^verbatim>\<open>save\<close> when they agree.
\<close>

lemma compare_screenshots_empty:
  assumes "empty_image ref_img"
  shows "snd (compare_screenshots rs ref_img target_img) = Inl ValueError"
proof (cases "img_size ref_img = img_size target_img")
  case True
  then have same: "img_size target_img = img_size ref_img" by simp
  show ?thesis
    using assms True by (simp add: compare_screenshots_def compare_pixels_same_size [OF same])
next
  case False
  then show ?thesis
    using assms by (simp add: compare_screenshots_def resize_def empty_image_def)
qed

lemma positive_area_returns:
  assumes pos: "0 < fst (img_size ref_img)" "0 < snd (img_size ref_img)"
  shows "\<exists>vis r. compare_screenshots rs ref_img target_img = (Some vis, Inr r)"
proof -
  have ne: "\<not> empty_image ref_img"
    using pos by (simp add: empty_image_def)
  obtain cand where cand: "img_size cand = img_size ref_img"
    "compare_screenshots rs ref_img target_img = compare_pixels ref_img cand"
    using compare_screenshots_nonempty [OF ne] by blast
  obtain q where "int_truediv
          (int (fst (img_size ref_img)) * int (snd (img_size ref_img)) -
             int (card {p. in_image ref_img p \<and> 30 < pdiff ref_img cand p}))
          (int (fst (img_size ref_img)) * int (snd (img_size ref_img))) = Inr q"
    using compare_pixels_returns [OF pos] by blast
  then show ?thesis
    unfolding cand(2) compare_pixels_positive [OF cand(1) ne] by simp
qed

lemma returns_nonempty:
  assumes "snd (compare_screenshots rs ref_img target_img) = Inr r"
  shows "\<not> empty_image ref_img"
  using assms compare_screenshots_empty [of ref_img rs target_img] by auto

text \<open>
  Claim C1. For two images of the same size and a coordinate \<open>(x, y)\<close> inside them, where
  the reference holds \<open>(r1, g1, b1)\<close> and the candidate \<open>(r2, g2, b2)\<close>,
  \<^verbatim>\<open>compare_screenshots\<close> returns a result and a visualization of the reference's size.
  \<open>different_pixels\<close> is the number of coordinates at which the sum of the absolute
  differences of the three channels exceeds 30. At \<open>(x, y)\<close> the visualization holds pure
  red \<open>(255, 0, 0)\<close> when \<open>\<bar>r1 - r2\<bar> + \<bar>g1 - g2\<bar> + \<bar>b1 - b2\<bar>\<close> exceeds 30, and otherwise a
  gray pixel whose three channels are the integer average \<open>(r2 + g2 + b2) div 3\<close> of the
  candidate's pixel (Python's \<^verbatim>\<open>sum(target_pixel) // 3\<close>).
\<close>

theorem pixel_classification:
  assumes "img_size target_img = img_size ref_img"
    and "x < fst (img_size ref_img)" and "y < snd (img_size ref_img)"
    and "img_data ref_img (x, y) = (r1, g1, b1)"
    and "img_data target_img (x, y) = (r2, g2, b2)"
  shows "\<exists>vis r. compare_screenshots rs ref_img target_img = (Some vis, Inr r) \<and>
     different_pixels r =
       int (card {p. fst p < fst (img_size ref_img) \<and> snd p < snd (img_size ref_img) \<and>
                     (case (img_data ref_img p, img_data target_img p) of
                        ((a1, a2, a3), (c1, c2, c3)) \<Rightarrow>
                          30 < \<bar>uint a1 - uint c1\<bar> + \<bar>uint a2 - uint c2\<bar> + \<bar>uint a3 - uint c3\<bar>)}) \<and>
     img_size vis = img_size ref_img \<and>
     (if 30 < \<bar>uint r1 - uint r2\<bar> + \<bar>uint g1 - uint g2\<bar> + \<bar>uint b1 - uint b2\<bar>
      then img_data vis (x, y) = (255, 0, 0)
      else \<exists>gray. img_data vis (x, y) = (gray, gray, gray) \<and>
             uint gray = (uint r2 + uint g2 + uint b2) div 3)"
proof -
  have pos: "0 < fst (img_size ref_img)" "0 < snd (img_size ref_img)"
    using assms(2,3) by simp_all
  have ne: "\<not> empty_image ref_img"
    using pos by (simp add: empty_image_def)
  obtain q where q: "int_truediv
            (int (fst (img_size ref_img)) * int (snd (img_size ref_img)) -
               int (card {p. in_image ref_img p \<and> 30 < pdiff ref_img target_img p}))
            (int (fst (img_size ref_img)) * int (snd (img_size ref_img))) = Inr q"
    using compare_pixels_returns [OF pos] by blast
  have set_eq: "{p. fst p < fst (img_size ref_img) \<and> snd p < snd (img_size ref_img) \<and>
                     (case (img_data ref_img p, img_data target_img p) of
                        ((a1, a2, a3), (c1, c2, c3)) \<Rightarrow>
                          30 < \<bar>uint a1 - uint c1\<bar> + \<bar>uint a2 - uint c2\<bar> + \<bar>uint a3 - uint c3\<bar>)} =
      {p. in_image ref_img p \<and> 30 < pdiff ref_img target_img p}"
    by (auto simp: in_image_def pixel_diff_channels split: prod.splits)
  have inside: "in_image ref_img (x, y)"
    using assms(2,3) by (simp add: in_image_def)
  have here: "pdiff ref_img target_img (x, y) =
      \<bar>uint r1 - uint r2\<bar> + \<bar>uint g1 - uint g2\<bar> + \<bar>uint b1 - uint b2\<bar>"
    by (simp add: assms(4,5))
  have gray: "uint (word_of_int (gray_level (img_data target_img (x, y))) :: 8 word) =
      (uint r2 + uint g2 + uint b2) div 3"
    unfolding uint_gray by (simp add: assms(5))
  have cmp: "compare_screenshots rs ref_img target_img = compare_pixels ref_img target_img"
    using assms(1) by (simp add: compare_screenshots_def)
  have red: "shade ref_img target_img (x, y) = (255, 0, 0)"
    if "30 < \<bar>uint r1 - uint r2\<bar> + \<bar>uint g1 - uint g2\<bar> + \<bar>uint b1 - uint b2\<bar>"
    using that here by (simp add: shade_def)
  have grey: "\<exists>gray. shade ref_img target_img (x, y) = (gray, gray, gray) \<and>
      uint gray = (uint r2 + uint g2 + uint b2) div 3"
    if "\<not> 30 < \<bar>uint r1 - uint r2\<bar> + \<bar>uint g1 - uint g2\<bar> + \<bar>uint b1 - uint b2\<bar>"
    using that here gray by (simp add: shade_def)
  show ?thesis
    unfolding cmp compare_pixels_positive [OF assms(1) ne] q set_eq
    using red grey inside by simp
qed

text \<open>
  Claim C2. Every dictionary \<^verbatim>\<open>compare_screenshots\<close> returns has
  \<open>0 \<le> different_pixels \<le> total_pixels\<close>; its \<open>similarity_percentage\<close> is
  \<^verbatim>\<open>(total_pixels - different_pixels) / total_pixels * 100\<close> computed in float arithmetic
  from those two fields; and \<open>passed\<close> is the comparison \<^verbatim>\<open>similarity_percentage >= 95.0\<close>.
  A dictionary is returned for every reference with at least one pixel.
\<close>

theorem result_invariants:
  assumes "snd (compare_screenshots rs ref_img target_img) = Inr r"
  shows "0 \<le> different_pixels r \<and> different_pixels r \<le> total_pixels r \<and>
     (\<exists>q. int_truediv (total_pixels r - different_pixels r) (total_pixels r) = Inr q \<and>
          similarity_percentage r = float_mul q 100) \<and>
     passed r = float_ge (similarity_percentage r) 95"
proof -
  have ne: "\<not> empty_image ref_img"
    using assms by (rule returns_nonempty)
  obtain cand where cand: "img_size cand = img_size ref_img"
    "compare_screenshots rs ref_img target_img = compare_pixels ref_img cand"
    using compare_screenshots_nonempty [OF ne] by blast
  show ?thesis
    using assms card_different_le [of ref_img "\<lambda>p. 30 < pdiff ref_img cand p"]
    unfolding cand(2) compare_pixels_positive [OF cand(1) ne]
    by (auto split: sum.splits)
qed

text \<open>
  Every image \<^verbatim>\<open>compare_screenshots\<close> reads from a file has a pixel: \<^verbatim>\<open>Image.open\<close>
  returns no other.
\<close>

lemma Image_open_positive:
  assumes "Image_open w path s = (Inr img, s')"
  shows "0 < fst (img_size img) \<and> 0 < snd (img_size img)"
  using assms
  by (auto simp: Image_open_def ext_def raise_def empty_image_def
      split: option.splits stored.splits if_splits)

text \<open>
  Claim C3. Two images of the same size that agree at every coordinate, and that have a
  pixel as every image \<^verbatim>\<open>Image.open\<close> returns has (\<open>Image_open_positive\<close>): for them
  \<^verbatim>\<open>compare_screenshots\<close> returns \<open>different_pixels = 0\<close>,
  \<open>similarity_percentage = 100.0\<close> and \<open>passed = True\<close>.
\<close>

theorem identical_images:
  assumes "img_size target_img = img_size ref_img"
    and "0 < fst (img_size ref_img)" and "0 < snd (img_size ref_img)"
    and "\<forall>p. in_image ref_img p \<longrightarrow> img_data target_img p = img_data ref_img p"
  shows "\<exists>vis r. compare_screenshots rs ref_img target_img = (Some vis, Inr r) \<and>
     different_pixels r = 0 \<and> similarity_percentage r = Finite 100 \<and> passed r"
proof -
  have "{p. in_image ref_img p \<and> 30 < pdiff ref_img target_img p} = {}"
    using assms(4) by (auto simp: pixel_diff_self)
  then have none: "card {p. in_image ref_img p \<and> 30 < pdiff ref_img target_img p} = 0"
    by (simp only: card.empty)
  have pos: "0 < int (fst (img_size ref_img)) * int (snd (img_size ref_img))"
    using assms(2,3) by simp
  have ne: "\<not> empty_image ref_img"
    using assms(2,3) by (simp add: empty_image_def)
  have cmp: "compare_screenshots rs ref_img target_img = compare_pixels ref_img target_img"
    using assms(1) by (simp add: compare_screenshots_def)
  show ?thesis
    unfolding cmp compare_pixels_positive [OF assms(1) ne] none
    using pos by (simp add: int_truediv_self float_mul_one_hundred)
qed

lemma all_different:
  assumes "img_size target_img = img_size ref_img"
    and "0 < fst (img_size ref_img)" and "0 < snd (img_size ref_img)"
    and "\<forall>p. in_image ref_img p \<longrightarrow> 30 < pixel_diff (img_data ref_img p) (img_data target_img p)"
  shows "\<exists>vis r. compare_screenshots rs ref_img target_img = (Some vis, Inr r) \<and>
     total_pixels r = int (fst (img_size ref_img)) * int (snd (img_size ref_img)) \<and>
     different_pixels r = total_pixels r \<and> similarity_percentage r = Finite 0 \<and> \<not> passed r"
proof -
  have "{p. in_image ref_img p \<and> 30 < pdiff ref_img target_img p} = {p. in_image ref_img p}"
    using assms(4) by auto
  then have every: "card {p. in_image ref_img p \<and> 30 < pdiff ref_img target_img p} =
      fst (img_size ref_img) * snd (img_size ref_img)"
    by (simp add: card_in_image)
  have pos: "0 < int (fst (img_size ref_img)) * int (snd (img_size ref_img))"
    using assms(2,3) by simp
  have ne: "\<not> empty_image ref_img"
    using assms(2,3) by (simp add: empty_image_def)
  have cmp: "compare_screenshots rs ref_img target_img = compare_pixels ref_img target_img"
    using assms(1) by (simp add: compare_screenshots_def)
  show ?thesis
    unfolding cmp compare_pixels_positive [OF assms(1) ne] every
    using pos by (simp add: int_truediv_zero float_mul_zero_hundred)
qed

text \<open>
  Claim C5. When the candidate's size differs from the reference's, the candidate is
  resized to the reference's size with the LANCZOS filter and the comparison is made on
  the resized image (an exception of the resize is the outcome; there is none for a
  reference with a pixel). When the sizes agree the result is that of the comparison
  alone, in which no resampler occurs. In both cases \<open>total_pixels\<close> is the reference's
  width times its height and the visualization has the reference's size.
\<close>

theorem normalization:
  "(img_size target_img \<noteq> img_size ref_img \<longrightarrow>
      (case resize rs target_img (img_size ref_img) LANCZOS of
         Inl e \<Rightarrow> compare_screenshots rs ref_img target_img = (None, Inl e)
       | Inr resized \<Rightarrow>
           img_size resized = img_size ref_img \<and>
           img_data resized = rs LANCZOS target_img (img_size ref_img) \<and>
           compare_screenshots rs ref_img target_img = compare_pixels ref_img resized)) \<and>
   (0 < fst (img_size ref_img) \<and> 0 < snd (img_size ref_img) \<longrightarrow>
      (\<exists>resized. resize rs target_img (img_size ref_img) LANCZOS = Inr resized) \<and>
      (\<exists>vis. fst (compare_screenshots rs ref_img target_img) = Some vis)) \<and>
   (img_size target_img = img_size ref_img \<longrightarrow>
      compare_screenshots rs ref_img target_img = compare_pixels ref_img target_img) \<and>
   (\<forall>r. snd (compare_screenshots rs ref_img target_img) = Inr r \<longrightarrow>
      total_pixels r = int (fst (img_size ref_img)) * int (snd (img_size ref_img))) \<and>
   (\<forall>vis. fst (compare_screenshots rs ref_img target_img) = Some vis \<longrightarrow>
      img_size vis = img_size ref_img)"
proof -
  have differ: "img_size target_img \<noteq> img_size ref_img \<longrightarrow>
      (case resize rs target_img (img_size ref_img) LANCZOS of
         Inl e \<Rightarrow> compare_screenshots rs ref_img target_img = (None, Inl e)
       | Inr resized \<Rightarrow>
           img_size resized = img_size ref_img \<and>
           img_data resized = rs LANCZOS target_img (img_size ref_img) \<and>
           compare_screenshots rs ref_img target_img = compare_pixels ref_img resized)"
    by (auto simp: compare_screenshots_def resize_def split: sum.splits)
  have returns: "0 < fst (img_size ref_img) \<and> 0 < snd (img_size ref_img) \<longrightarrow>
      (\<exists>resized. resize rs target_img (img_size ref_img) LANCZOS = Inr resized) \<and>
      (\<exists>vis. fst (compare_screenshots rs ref_img target_img) = Some vis)"
  proof
    assume pos: "0 < fst (img_size ref_img) \<and> 0 < snd (img_size ref_img)"
    then obtain vis r where "compare_screenshots rs ref_img target_img = (Some vis, Inr r)"
      using positive_area_returns [of ref_img rs target_img] by blast
    then show "(\<exists>resized. resize rs target_img (img_size ref_img) LANCZOS = Inr resized) \<and>
      (\<exists>vis. fst (compare_screenshots rs ref_img target_img) = Some vis)"
      using pos by (simp add: resize_def)
  qed
  have same: "img_size target_img = img_size ref_img \<longrightarrow>
      compare_screenshots rs ref_img target_img = compare_pixels ref_img target_img"
    by (simp add: compare_screenshots_def)
  have total: "\<forall>r. snd (compare_screenshots rs ref_img target_img) = Inr r \<longrightarrow>
      total_pixels r = int (fst (img_size ref_img)) * int (snd (img_size ref_img))"
  proof (intro allI impI)
    fix r
    assume r: "snd (compare_screenshots rs ref_img target_img) = Inr r"
    then have ne: "\<not> empty_image ref_img" by (rule returns_nonempty)
    obtain cand where cand: "img_size cand = img_size ref_img"
      "compare_screenshots rs ref_img target_img = compare_pixels ref_img cand"
      using compare_screenshots_nonempty [OF ne] by blast
    show "total_pixels r = int (fst (img_size ref_img)) * int (snd (img_size ref_img))"
      using r unfolding cand(2) compare_pixels_positive [OF cand(1) ne]
      by (auto split: sum.splits)
  qed
  have saved: "\<forall>vis. fst (compare_screenshots rs ref_img target_img) = Some vis \<longrightarrow>
      img_size vis = img_size ref_img"
  proof (cases "img_size ref_img = img_size target_img")
    case True
    then have eq: "img_size target_img = img_size ref_img" by simp
    show ?thesis
      using True by (auto simp: compare_screenshots_def compare_pixels_same_size [OF eq])
  next
    case False
    show ?thesis
    proof (cases "resize rs target_img (img_size ref_img) LANCZOS")
      case (Inl e)
      then show ?thesis using False by (simp add: compare_screenshots_def)
    next
      case (Inr resized)
      then have eq: "img_size resized = img_size ref_img"
        by (auto simp: resize_def split: if_splits)
      show ?thesis
        using False Inr by (auto simp: compare_screenshots_def compare_pixels_same_size [OF eq])
    qed
  qed
  show ?thesis
    using differ returns same total saved by (intro conjI)
qed

text \<open>
  Claim C10, as the code has it. The division by \<open>total_pixels\<close>, the reference's width
  times its height, is not guarded, and it needs no guard. For a reference of positive
  width and height \<open>total_pixels\<close> is positive and \<^verbatim>\<open>compare_screenshots\<close> returns a
  dictionary, whatever the candidate. For a reference of width or height zero the
  function ends before the division of line 170 with the ValueError of Pillow: that of
  \<^verbatim>\<open>resize\<close> (line 138) when the sizes differ, that of \<^verbatim>\<open>diff_img.save\<close> (line 168) when
  they agree. So the function raises ZeroDivisionError for no input.
\<close>

theorem division_by_total_pixels:
  "(0 < fst (img_size ref_img) \<and> 0 < snd (img_size ref_img) \<longrightarrow>
      (\<exists>vis r. compare_screenshots rs ref_img target_img = (Some vis, Inr r) \<and>
         total_pixels r = int (fst (img_size ref_img)) * int (snd (img_size ref_img)) \<and>
         0 < total_pixels r)) \<and>
   (fst (img_size ref_img) = 0 \<or> snd (img_size ref_img) = 0 \<longrightarrow>
      snd (compare_screenshots rs ref_img target_img) = Inl ValueError) \<and>
   snd (compare_screenshots rs ref_img target_img) \<noteq> Inl ZeroDivisionError"
proof (cases "empty_image ref_img")
  case True
  then have "snd (compare_screenshots rs ref_img target_img) = Inl ValueError"
    by (rule compare_screenshots_empty)
  then show ?thesis
    using True by (auto simp: empty_image_def)
next
  case False
  then have pos: "0 < fst (img_size ref_img)" "0 < snd (img_size ref_img)"
    by (simp_all add: empty_image_def)
  obtain cand where cand: "img_size cand = img_size ref_img"
    "compare_screenshots rs ref_img target_img = compare_pixels ref_img cand"
    using compare_screenshots_nonempty [OF False] by blast
  obtain q where q: "int_truediv
          (int (fst (img_size ref_img)) * int (snd (img_size ref_img)) -
             int (card {p. in_image ref_img p \<and> 30 < pdiff ref_img cand p}))
          (int (fst (img_size ref_img)) * int (snd (img_size ref_img))) = Inr q"
    using compare_pixels_returns [OF pos] by blast
  show ?thesis
    unfolding cand(2) compare_pixels_positive [OF cand(1) False] q
    using pos by simp
qed

text \<open>
  Claim C10 as stated fails in its last part: a reference of zero area does not reach
  the division. With a reference of width 0 and height 5, a candidate of another size
  stops at \<^verbatim>\<open>resize\<close> and a candidate of the same size stops at \<^verbatim>\<open>diff_img.save\<close>,
  both with ValueError; the quotient \<^verbatim>\<open>(0 - 0) / 0\<close>, which would raise
  ZeroDivisionError, is not evaluated.
\<close>

theorem zero_area_skips_division:
  "compare_screenshots (\<lambda>flt img sz p. (0, 0, 0))
       (Image_new (0, 5) (0, 0, 0)) (Image_new (4, 4) (9, 9, 9)) = (None, Inl ValueError) \<and>
   snd (compare_screenshots (\<lambda>flt img sz p. (0, 0, 0))
       (Image_new (0, 5) (0, 0, 0)) (Image_new (0, 5) (9, 9, 9))) = Inl ValueError \<and>
   int_truediv (0 - 0) 0 = Inl ZeroDivisionError"
proof -
  have a: "compare_screenshots (\<lambda>flt img sz p. (0, 0, 0))
       (Image_new (0, 5) (0, 0, 0)) (Image_new (4, 4) (9, 9, 9)) = (None, Inl ValueError)"
    by (simp add: compare_screenshots_def resize_def Image_new_def)
  have b: "snd (compare_screenshots (\<lambda>flt img sz p. (0, 0, 0))
       (Image_new (0, 5) (0, 0, 0)) (Image_new (0, 5) (9, 9, 9))) = Inl ValueError"
    by (rule compare_screenshots_empty) (simp add: empty_image_def Image_new_def)
  have c: "int_truediv (0 - 0) 0 = Inl ZeroDivisionError"
    by (simp add: int_truediv_def)
  show ?thesis using a b c by (intro conjI)
qed

text \<open>
  Claim C4. Two images of the same size whose summed absolute channel difference exceeds
  30 at every coordinate, and that have a pixel as every image \<^verbatim>\<open>Image.open\<close> returns
  has: for them \<^verbatim>\<open>compare_screenshots\<close> returns \<open>different_pixels = total_pixels\<close>,
  \<open>similarity_percentage = 0.0\<close> and \<open>passed = False\<close>. For a black reference and a white
  candidate of 100 by 100 pixels it returns \<open>different_pixels = 10000\<close>,
  \<open>similarity_percentage = 0.0\<close> and \<open>passed = False\<close>.
\<close>

theorem every_pixel_different:
  "(img_size target_img = img_size ref_img \<and>
    0 < fst (img_size ref_img) \<and> 0 < snd (img_size ref_img) \<and>
    (\<forall>p. fst p < fst (img_size ref_img) \<and> snd p < snd (img_size ref_img) \<longrightarrow>
       (case (img_data ref_img p, img_data target_img p) of
          ((a1, a2, a3), (c1, c2, c3)) \<Rightarrow>
            30 < \<bar>uint a1 - uint c1\<bar> + \<bar>uint a2 - uint c2\<bar> + \<bar>uint a3 - uint c3\<bar>)) \<longrightarrow>
    (\<exists>vis r. compare_screenshots rs ref_img target_img = (Some vis, Inr r) \<and>
       total_pixels r = int (fst (img_size ref_img)) * int (snd (img_size ref_img)) \<and>
       different_pixels r = total_pixels r \<and>
       similarity_percentage r = Finite 0 \<and> \<not> passed r)) \<and>
   (\<exists>vis r. compare_screenshots rs (Image_new (100, 100) (0, 0, 0))
                (Image_new (100, 100) (255, 255, 255)) = (Some vis, Inr r) \<and>
       total_pixels r = 10000 \<and> different_pixels r = 10000 \<and>
       similarity_percentage r = Finite 0 \<and> \<not> passed r)"
proof (rule conjI)
  show "img_size target_img = img_size ref_img \<and>
    0 < fst (img_size ref_img) \<and> 0 < snd (img_size ref_img) \<and>
    (\<forall>p. fst p < fst (img_size ref_img) \<and> snd p < snd (img_size ref_img) \<longrightarrow>
       (case (img_data ref_img p, img_data target_img p) of
          ((a1, a2, a3), (c1, c2, c3)) \<Rightarrow>
            30 < \<bar>uint a1 - uint c1\<bar> + \<bar>uint a2 - uint c2\<bar> + \<bar>uint a3 - uint c3\<bar>)) \<longrightarrow>
    (\<exists>vis r. compare_screenshots rs ref_img target_img = (Some vis, Inr r) \<and>
       total_pixels r = int (fst (img_size ref_img)) * int (snd (img_size ref_img)) \<and>
       different_pixels r = total_pixels r \<and>
       similarity_percentage r = Finite 0 \<and> \<not> passed r)"
  proof
    assume a: "img_size target_img = img_size ref_img \<and>
      0 < fst (img_size ref_img) \<and> 0 < snd (img_size ref_img) \<and>
      (\<forall>p. fst p < fst (img_size ref_img) \<and> snd p < snd (img_size ref_img) \<longrightarrow>
         (case (img_data ref_img p, img_data target_img p) of
            ((a1, a2, a3), (c1, c2, c3)) \<Rightarrow>
              30 < \<bar>uint a1 - uint c1\<bar> + \<bar>uint a2 - uint c2\<bar> + \<bar>uint a3 - uint c3\<bar>))"
    then have every: "\<forall>p. in_image ref_img p \<longrightarrow>
        30 < pixel_diff (img_data ref_img p) (img_data target_img p)"
      by (auto simp: in_image_def pixel_diff_channels split: prod.splits)
    show "\<exists>vis r. compare_screenshots rs ref_img target_img = (Some vis, Inr r) \<and>
       total_pixels r = int (fst (img_size ref_img)) * int (snd (img_size ref_img)) \<and>
       different_pixels r = total_pixels r \<and>
       similarity_percentage r = Finite 0 \<and> \<not> passed r"
      using a every all_different [of target_img ref_img rs] by blast
  qed
next
  show "\<exists>vis r. compare_screenshots rs (Image_new (100, 100) (0, 0, 0))
                (Image_new (100, 100) (255, 255, 255)) = (Some vis, Inr r) \<and>
       total_pixels r = 10000 \<and> different_pixels r = 10000 \<and>
       similarity_percentage r = Finite 0 \<and> \<not> passed r"
    using all_different [of "Image_new (100, 100) (255, 255, 255)" "Image_new (100, 100) (0, 0, 0)" rs]
    by (auto simp: Image_new_def)
qed

lemma black_white_pixel:
  "snd (compare_screenshots rs (Image_new (1, 1) (0, 0, 0)) (Image_new (1, 1) (255, 255, 255))) =
     Inr \<lparr>total_pixels = 1, different_pixels = 1, similarity_percentage = Finite 0,
          max_difference = 765, passed = False\<rparr>"
proof -
  have "{p. in_image (Image_new (1, 1) (0, 0, 0)) p} = {(0, 0)}"
    by (auto simp: in_image_def Image_new_def)
  then show ?thesis
    by (simp add: compare_screenshots_def compare_pixels_same_size int_truediv_zero
        float_mul_zero_hundred Image_new_def empty_image_def)
qed

theorem pixel_classification_witness:
  "\<exists>vis r. compare_screenshots (\<lambda>flt img sz p. (0, 0, 0)) (Image_new (2, 1) (10, 20, 30))
       \<lparr>img_size = (2, 1),
        img_data = (\<lambda>p. if p = (1, 0) then (200, 200, 200) else (12, 22, 32))\<rparr> = (Some vis, Inr r) \<and>
     different_pixels r = 1 \<and>
     img_data vis (0, 0) = (22, 22, 22) \<and> img_data vis (1, 0) = (255, 0, 0)"
proof -
  let ?ref = "Image_new (2, 1) (10, 20, 30)"
  let ?cand = "\<lparr>img_size = (2, 1),
        img_data = (\<lambda>p. if p = (1, 0) then (200, 200, 200) else (12, 22, 32))\<rparr> :: image"
  have count: "{p. fst p < fst (img_size ?ref) \<and> snd p < snd (img_size ?ref) \<and>
                     (case (img_data ?ref p, img_data ?cand p) of
                        ((a1, a2, a3), (c1, c2, c3)) \<Rightarrow>
                          30 < \<bar>uint a1 - uint c1\<bar> + \<bar>uint a2 - uint c2\<bar> + \<bar>uint a3 - uint c3\<bar>)} =
      {(1, 0)}"
    by (auto simp: Image_new_def split: if_splits)
  obtain vis r where res: "compare_screenshots (\<lambda>flt img sz p. (0, 0, 0)) ?ref ?cand = (Some vis, Inr r)"
    and cnt: "different_pixels r = 1"
    and red: "img_data vis (1, 0) = (255, 0, 0)"
    using pixel_classification [where ref_img = ?ref and target_img = ?cand and x = 1 and y = 0
        and ?r1.0 = 10 and ?g1.0 = 20 and ?b1.0 = 30 and ?r2.0 = 200 and ?g2.0 = 200 and ?b2.0 = 200
        and rs = "\<lambda>flt img sz p. (0, 0, 0)"]
    unfolding count by (auto simp: Image_new_def)
  obtain gray where gray: "img_data vis (0, 0) = (gray, gray, gray)" "uint gray = 22"
    using pixel_classification [where ref_img = ?ref and target_img = ?cand and x = 0 and y = 0
        and ?r1.0 = 10 and ?g1.0 = 20 and ?b1.0 = 30 and ?r2.0 = 12 and ?g2.0 = 22 and ?b2.0 = 32
        and rs = "\<lambda>flt img sz p. (0, 0, 0)"] res
    by (auto simp: Image_new_def)
  have "gray = 22"
    using gray(2) by (simp add: word_uint_eq_iff)
  then show ?thesis
    using res cnt red gray(1) by simp
qed

theorem result_invariants_witness:
  "snd (compare_screenshots (\<lambda>flt img sz p. (0, 0, 0))
       (Image_new (1, 1) (0, 0, 0)) (Image_new (1, 1) (255, 255, 255))) =
     Inr \<lparr>total_pixels = 1, different_pixels = 1, similarity_percentage = Finite 0,
          max_difference = 765, passed = False\<rparr> \<and>
   int_truediv (1 - 1) 1 = Inr 0 \<and> float_mul 0 100 = Finite 0 \<and> \<not> float_ge (Finite 0) 95"
proof -
  have r: "snd (compare_screenshots (\<lambda>flt img sz p. (0, 0, 0))
       (Image_new (1, 1) (0, 0, 0)) (Image_new (1, 1) (255, 255, 255))) =
     Inr \<lparr>total_pixels = 1, different_pixels = 1, similarity_percentage = Finite 0,
          max_difference = 765, passed = False\<rparr>"
    by (rule black_white_pixel)
  show ?thesis
    using result_invariants [OF r] r by (auto simp: float_mul_zero_hundred int_truediv_zero)
qed

theorem identical_images_witness:
  "\<exists>vis r. compare_screenshots (\<lambda>flt img sz p. (0, 0, 0))
       (Image_new (3, 2) (18, 18, 18)) (Image_new (3, 2) (18, 18, 18)) = (Some vis, Inr r) \<and>
     different_pixels r = 0 \<and> similarity_percentage r = Finite 100 \<and> passed r"
  by (rule identical_images) (simp_all add: Image_new_def)

theorem every_pixel_different_witness:
  "\<exists>vis r. compare_screenshots (\<lambda>flt img sz p. (0, 0, 0))
       (Image_new (3, 2) (0, 0, 0)) (Image_new (3, 2) (10, 11, 10)) = (Some vis, Inr r) \<and>
     total_pixels r = 6 \<and> different_pixels r = 6 \<and>
     similarity_percentage r = Finite 0 \<and> \<not> passed r"
  using every_pixel_different [of "Image_new (3, 2) (10, 11, 10)" "Image_new (3, 2) (0, 0, 0)"
      "\<lambda>flt img sz p. (0, 0, 0)"]
  by (auto simp: Image_new_def)

theorem normalization_witness:
  "compare_screenshots (\<lambda>flt img sz p. (7, 7, 7))
       (Image_new (2, 2) (0, 0, 0)) (Image_new (5, 3) (255, 255, 255)) =
     compare_pixels (Image_new (2, 2) (0, 0, 0)) (Image_new (2, 2) (7, 7, 7)) \<and>
   compare_screenshots (\<lambda>flt img sz p. (7, 7, 7))
       (Image_new (2, 2) (0, 0, 0)) (Image_new (2, 2) (255, 255, 255)) =
     compare_pixels (Image_new (2, 2) (0, 0, 0)) (Image_new (2, 2) (255, 255, 255)) \<and>
   compare_screenshots (\<lambda>flt img sz p. (7, 7, 7))
       (Image_new (0, 2) (0, 0, 0)) (Image_new (5, 3) (255, 255, 255)) = (None, Inl ValueError)"
  using normalization [of "Image_new (5, 3) (255, 255, 255)" "Image_new (2, 2) (0, 0, 0)"
      "\<lambda>flt img sz p. (7, 7, 7)"]
    normalization [of "Image_new (2, 2) (255, 255, 255)" "Image_new (2, 2) (0, 0, 0)"
      "\<lambda>flt img sz p. (7, 7, 7)"]
    normalization [of "Image_new (5, 3) (255, 255, 255)" "Image_new (0, 2) (0, 0, 0)"
      "\<lambda>flt img sz p. (7, 7, 7)"]
  by (simp add: Image_new_def resize_def)

theorem division_by_total_pixels_witness:
  "(\<exists>vis r. compare_screenshots (\<lambda>flt img sz p. (0, 0, 0))
       (Image_new (1, 1) (0, 0, 0)) (Image_new (4, 4) (9, 9, 9)) = (Some vis, Inr r) \<and>
       total_pixels r = 1) \<and>
   snd (compare_screenshots (\<lambda>flt img sz p. (0, 0, 0))
       (Image_new (7, 0) (0, 0, 0)) (Image_new (4, 4) (9, 9, 9))) = Inl ValueError"
  using division_by_total_pixels [of "Image_new (1, 1) (0, 0, 0)" "\<lambda>flt img sz p. (0, 0, 0)"
      "Image_new (4, 4) (9, 9, 9)"]
    division_by_total_pixels [of "Image_new (7, 0) (0, 0, 0)" "\<lambda>flt img sz p. (0, 0, 0)"
      "Image_new (4, 4) (9, 9, 9)"]
  by (auto simp: Image_new_def)

section \<open>Handles: what the tests leave open\<close>

lemma keeps_ret [keeps]: "keeps_pages (ret x)"
  by (simp add: keeps_pages_def ret_def)

lemma keeps_raise [keeps]: "keeps_pages (raise e)"
  by (simp add: keeps_pages_def raise_def)

lemma keeps_lift [keeps]: "keeps_pages (lift r)"
  by (simp add: keeps_pages_def lift_def)

lemma keeps_bnd [keeps]:
  assumes "keeps_pages m" and "\<And>x. keeps_pages (f x)"
  shows "keeps_pages (bnd m f)"
  unfolding keeps_pages_def
proof
  fix s
  obtain r s' where ms: "m s = (r, s')" by (cases "m s")
  have s': "open_pages s' = open_pages s"
    using assms(1) ms by (metis keeps_pages_def snd_conv)
  show "open_pages (snd (bnd m f s)) = open_pages s"
  proof (cases r)
    case (Inl e)
    then show ?thesis using ms s' by (simp add: bnd_def)
  next
    case (Inr x)
    have "open_pages (snd (f x s')) = open_pages s'"
      using assms(2) [of x] by (simp add: keeps_pages_def)
    then show ?thesis using Inr ms s' by (simp add: bnd_def)
  qed
qed

lemma keeps_seq [keeps]: "keeps_pages m \<Longrightarrow> keeps_pages n \<Longrightarrow> keeps_pages (seq m n)"
  unfolding seq_def by (rule keeps_bnd)

lemma keeps_try_except [keeps]:
  assumes "keeps_pages m" and "keeps_pages h"
  shows "keeps_pages (try_except m h)"
  unfolding keeps_pages_def
proof
  fix s
  obtain r s' where ms: "m s = (r, s')" by (cases "m s")
  have s': "open_pages s' = open_pages s"
    using assms(1) ms by (metis keeps_pages_def snd_conv)
  have "open_pages (snd (h s')) = open_pages s'"
    using assms(2) by (simp add: keeps_pages_def)
  then show "open_pages (snd (try_except m h s)) = open_pages s"
    using ms s' by (cases r) (simp_all add: try_except_def)
qed

lemma keeps_ext [keeps]: "keeps_pages m \<Longrightarrow> keeps_pages (ext w c m)"
  by (simp add: ext_def keeps_raise split: option.splits)

lemma keeps_if [keeps]: "keeps_pages m \<Longrightarrow> keeps_pages n \<Longrightarrow> keeps_pages (if b then m else n)"
  by simp

lemma keeps_py_assert [keeps]: "keeps_pages (py_assert c msg)"
  by (simp add: py_assert_def keeps_raise keeps_ret split: sum.splits bool.splits)

lemma keeps_goto [keeps]: "keeps_pages (goto w page url)"
  unfolding goto_def by (rule keeps_ext) (simp add: keeps_pages_def)

lemma keeps_wait [keeps]: "keeps_pages (wait_for_load_state w page)"
  unfolding wait_for_load_state_def by (intro keeps)

lemma keeps_locator_count [keeps]: "keeps_pages (locator_count w page sel)"
  unfolding locator_count_def by (rule keeps_ext) (simp add: keeps_pages_def)

lemma keeps_is_visible [keeps]: "keeps_pages (is_visible w page sel)"
  unfolding is_visible_def by (rule keeps_ext) (simp add: keeps_pages_def)

lemma keeps_evaluate [keeps]: "keeps_pages (evaluate w page script)"
  unfolding evaluate_def by (rule keeps_ext) (simp add: keeps_pages_def)

lemma keeps_screenshot [keeps]: "keeps_pages (screenshot w page path)"
  unfolding screenshot_def by (rule keeps_ext) (simp add: keeps_pages_def)

lemma keeps_mkdir [keeps]: "keeps_pages (mkdir w path)"
  unfolding mkdir_def by (intro keeps)

lemma keeps_Image_open [keeps]: "keeps_pages (Image_open w path)"
  unfolding Image_open_def
  by (rule keeps_ext) (simp add: keeps_pages_def split: option.splits stored.splits)

lemma keeps_Image_save [keeps]: "keeps_pages (Image_save w img path)"
  unfolding Image_save_def
  by (rule keeps_ext) (simp add: keeps_pages_def save_check_def raise_def)

lemma keeps_json_dump [keeps]: "keeps_pages (json_dump w r path)"
  unfolding json_dump_def by (rule keeps_ext) (simp add: keeps_pages_def)

lemma keeps_print [keeps]: "keeps_pages (print l)"
  by (simp add: keeps_pages_def print_def)

lemma keeps_get_computed_styles [keeps]: "keeps_pages (get_computed_styles w page sel)"
  unfolding get_computed_styles_def by (intro keeps)

lemma keeps_get_element_position [keeps]: "keeps_pages (get_element_position w page sel)"
  unfolding get_element_position_def by (intro keeps)

lemma keeps_check_element_visible [keeps]: "keeps_pages (check_element_visible w page sel)"
  unfolding check_element_visible_def by (intro keeps)

lemma keeps_compare_screenshot_files [keeps]:
  "keeps_pages (compare_screenshot_files w ref_path target_path diff_path)"
  unfolding compare_screenshot_files_def
  by (intro keeps) (auto split: prod.splits option.splits intro!: keeps)

lemma new_page_ok:
  assumes "fault w (NewPage (next_page s)) = None"
  obtains s1 where "new_page w vp s = (Inr (next_page s), s1)"
    and "open_pages s1 = insert (next_page s) (open_pages s)"
    and "next_page s1 = Suc (next_page s)"
  using assms by (simp add: new_page_def ext_def)

lemma close_ok:
  assumes "fault w (Close page) = None"
  shows "close w page s = (Inr (), s\<lparr>open_pages := open_pages s - {page}\<rparr>)"
  using assms by (simp add: close_def ext_def)

text \<open>One handle, acquired before the \<^verbatim>\<open>try\<close> and closed in its \<^verbatim>\<open>finally\<close>.\<close>

lemma scoped_one:
  assumes new: "fault w (NewPage (next_page s)) = None"
    and cl: "fault w (Close (next_page s)) = None"
    and body: "\<And>page. keeps_pages (body page)"
  shows "open_pages (snd (bnd (new_page w vp) (\<lambda>page. try_finally (body page) (close w page)) s)) =
           open_pages s - {next_page s}"
proof -
  obtain s1 where np: "new_page w vp s = (Inr (next_page s), s1)"
    and s1: "open_pages s1 = insert (next_page s) (open_pages s)"
    using new_page_ok [OF new] by blast
  obtain r s2 where b: "body (next_page s) s1 = (r, s2)" by (cases "body (next_page s) s1")
  have "open_pages s2 = open_pages s1"
    using body [of "next_page s"] b by (metis keeps_pages_def snd_conv)
  then have s2: "open_pages s2 = insert (next_page s) (open_pages s)"
    using s1 by simp
  show ?thesis
    by (simp add: bnd_def np try_finally_def b close_ok [OF cl] s2)
qed

text \<open>Two handles, acquired before the \<^verbatim>\<open>try\<close> and closed in its \<^verbatim>\<open>finally\<close>.\<close>

lemma scoped_two:
  assumes new1: "fault w (NewPage (next_page s)) = None"
    and new2: "fault w (NewPage (Suc (next_page s))) = None"
    and cl1: "fault w (Close (next_page s)) = None"
    and cl2: "fault w (Close (Suc (next_page s))) = None"
    and body: "\<And>p1 p2. keeps_pages (body p1 p2)"
  shows "open_pages (snd (bnd (new_page w vp) (\<lambda>p1. bnd (new_page w vp) (\<lambda>p2.
            try_finally (body p1 p2) (seq (close w p1) (close w p2)))) s)) =
           open_pages s - {next_page s, Suc (next_page s)}"
proof -
  obtain s1 where np1: "new_page w vp s = (Inr (next_page s), s1)"
    and s1: "open_pages s1 = insert (next_page s) (open_pages s)"
    and n1: "next_page s1 = Suc (next_page s)"
    using new_page_ok [OF new1] by blast
  have new2': "fault w (NewPage (next_page s1)) = None"
    using new2 n1 by simp
  obtain s2 where np2: "new_page w vp s1 = (Inr (Suc (next_page s)), s2)"
    and s2: "open_pages s2 = insert (Suc (next_page s)) (insert (next_page s) (open_pages s))"
    using new_page_ok [OF new2', of vp] n1 s1 by metis
  obtain r s3 where b: "body (next_page s) (Suc (next_page s)) s2 = (r, s3)"
    by (cases "body (next_page s) (Suc (next_page s)) s2")
  have "open_pages s3 = open_pages s2"
    using body [of "next_page s" "Suc (next_page s)"] b by (metis keeps_pages_def snd_conv)
  then have s3: "open_pages s3 = insert (Suc (next_page s)) (insert (next_page s) (open_pages s))"
    using s2 by simp
  show ?thesis
    by (auto simp: bnd_def seq_def np1 np2 try_finally_def b close_ok [OF cl1] close_ok [OF cl2] s3)
qed


lemma seq_ret: "seq (ret ()) m = m"
  by (simp add: seq_def bnd_def ret_def)

lemma mkdir_ok: "fault w (Mkdir d) = None \<Longrightarrow> mkdir w d = ret ()"
  by (simp add: mkdir_def ext_def)

text \<open>
  What the \<^verbatim>\<open>try\<close> statements do guarantee. In each of the seven tests that run once
  per viewport, when acquiring a handle, creating the output directory and closing a
  handle do not raise, every handle the test acquired (the handle numbered
  \<open>next_page s\<close>, and the next one in a test of two pages) is closed when the test
  finishes and no other handle is touched, whatever the body of the \<^verbatim>\<open>try\<close> did: it may
  have succeeded, failed an assertion, or raised any other exception.
\<close>

theorem handles_released:
  assumes new: "\<forall>n. fault w (NewPage n) = None"
    and cl: "\<forall>p. fault w (Close p) = None"
    and dir: "\<forall>d. fault w (Mkdir d) = None"
  shows "open_pages (snd (test_header_exists w viewport_name viewport s)) =
           open_pages s - {next_page s, Suc (next_page s)} \<and>
         open_pages (snd (test_header_background_color w viewport_name viewport s)) =
           open_pages s - {next_page s, Suc (next_page s)} \<and>
         open_pages (snd (test_header_fixed_position_desktop w viewport_name viewport s)) =
           open_pages s - {next_page s} \<and>
         open_pages (snd (test_main_content_exists w viewport_name viewport s)) =
           open_pages s - {next_page s} \<and>
         open_pages (snd (test_homepage_two_column_layout w viewport_name viewport s)) =
           open_pages s - {next_page s} \<and>
         open_pages (snd (test_page_screenshot_similarity w page_path viewport_name viewport s)) =
           open_pages s - {next_page s, Suc (next_page s)} \<and>
         open_pages (snd (test_content_readable_at_all_sizes w viewport_name viewport s)) =
           open_pages s - {next_page s}"
proof -
  have t1: "open_pages (snd (test_header_exists w viewport_name viewport s)) =
           open_pages s - {next_page s, Suc (next_page s)}"
    unfolding test_header_exists_def
    using new cl by (intro scoped_two keeps) simp_all
  have t2: "open_pages (snd (test_header_background_color w viewport_name viewport s)) =
           open_pages s - {next_page s, Suc (next_page s)}"
    unfolding test_header_background_color_def
    using new cl by (intro scoped_two keeps) simp_all
  have t3: "open_pages (snd (test_header_fixed_position_desktop w viewport_name viewport s)) =
           open_pages s - {next_page s}"
    unfolding test_header_fixed_position_desktop_def
    using new cl by (intro scoped_one keeps) simp_all
  have t4: "open_pages (snd (test_main_content_exists w viewport_name viewport s)) =
           open_pages s - {next_page s}"
    unfolding test_main_content_exists_def
    using new cl by (intro scoped_one keeps) simp_all
  have t5: "open_pages (snd (test_homepage_two_column_layout w viewport_name viewport s)) =
           open_pages s - {next_page s}"
    unfolding test_homepage_two_column_layout_def
    using new cl by (intro scoped_one keeps) simp_all
  have t6: "open_pages (snd (test_page_screenshot_similarity w page_path viewport_name viewport s)) =
           open_pages s - {next_page s, Suc (next_page s)}"
    unfolding test_page_screenshot_similarity_def Let_def
    using new cl dir by (simp only: mkdir_ok seq_ret) (intro scoped_two keeps, simp_all)
  have t7: "open_pages (snd (test_content_readable_at_all_sizes w viewport_name viewport s)) =
           open_pages s - {next_page s}"
    unfolding test_content_readable_at_all_sizes_def Let_def
    using new cl by (intro scoped_one keeps) simp_all
  show ?thesis using t1 t2 t3 t4 t5 t6 t7 by (intro conjI)
qed


lemmas run_defs =
  bnd_def seq_def ret_def raise_def lift_def try_finally_def try_except_def ext_def
  py_assert_def and_then_def getitem_def truthy_def
  new_page_def goto_def wait_for_load_state_def close_def locator_count_def is_visible_def
  evaluate_def querySelector_def screenshot_def mkdir_def Image_open_def Image_save_def
  json_dump_def print_def computed_styles_script_def element_position_script_def
  get_computed_styles_def get_element_position_def check_element_visible_def
  compare_screenshot_files_def path_join_def blank_def save_check_def

theorem handles_released_witness:
  "fst (test_header_exists still_world ''desktop'' \<lparr>width = 1440, height = 900\<rparr> fresh) =
     Inl (AssertionError ''Reference site missing header'') \<and>
   open_pages (snd (test_header_exists still_world ''desktop'' \<lparr>width = 1440, height = 900\<rparr> fresh)) = {}"
proof -
  have "fst (test_header_exists still_world ''desktop'' \<lparr>width = 1440, height = 900\<rparr> fresh) =
     Inl (AssertionError ''Reference site missing header'')"
    by (simp add: test_header_exists_def run_defs still_world_def fresh_def)
  moreover have "open_pages (snd (test_header_exists still_world ''desktop'' \<lparr>width = 1440, height = 900\<rparr> fresh)) = {}"
    using handles_released [of still_world "''desktop''" "\<lparr>width = 1440, height = 900\<rparr>" fresh "''index.html''"]
    by (simp add: still_world_def fresh_def)
  ultimately show ?thesis by simp
qed

text \<open>
  Claim C8. The release is not reached on every path of the code. The handles are
  acquired before the \<^verbatim>\<open>try\<close> statement, so an exception raised between the
  acquisition and the \<^verbatim>\<open>try\<close> leaves them open: when the output directory cannot be
  created (line 428) the screenshot test ends with OSError and both pages, 0 and 1, stay
  open; when the second \<^verbatim>\<open>new_page\<close> raises, the first page stays open. And when the
  first \<^verbatim>\<open>close\<close> of the \<^verbatim>\<open>finally\<close> block raises, the second page is never closed.
\<close>

theorem handles_leak:
  "fst (test_page_screenshot_similarity readonly_world ''index.html'' ''mobile''
          \<lparr>width = 375, height = 667\<rparr> fresh) = Inl OSError \<and>
   open_pages (snd (test_page_screenshot_similarity readonly_world ''index.html'' ''mobile''
          \<lparr>width = 375, height = 667\<rparr> fresh)) = {0, 1} \<and>
   fst (test_header_exists (faulty (NewPage 1) (ProviderError ''Target closed''))
          ''mobile'' \<lparr>width = 375, height = 667\<rparr> fresh) = Inl (ProviderError ''Target closed'') \<and>
   open_pages (snd (test_header_exists (faulty (NewPage 1) (ProviderError ''Target closed''))
          ''mobile'' \<lparr>width = 375, height = 667\<rparr> fresh)) = {0} \<and>
   1 \<in> open_pages (snd (test_header_exists (faulty (Close 0) (ProviderError ''Target closed''))
          ''mobile'' \<lparr>width = 375, height = 667\<rparr> fresh))"
  by (auto simp: test_page_screenshot_similarity_def test_header_exists_def run_defs
      readonly_world_def faulty_def still_world_def fresh_def Let_def)

section \<open>The gated tests and the absent element\<close>

text \<open>
  Claim C9. The fixed-position test is parametrized with exactly the viewports of width
  at least 992 (desktop and wide), the two-column test with exactly those of width at
  least 640 (tablet, desktop and wide); no test case exists for another viewport, so
  none runs, and none fails, at width 375.
\<close>

theorem viewport_gated_tests:
  "fixed_position_viewports =
     [(''desktop'', \<lparr>width = 1440, height = 900\<rparr>), (''wide'', \<lparr>width = 1920, height = 1080\<rparr>)] \<and>
   two_column_viewports =
     [(''tablet'', \<lparr>width = 768, height = 1024\<rparr>), (''desktop'', \<lparr>width = 1440, height = 900\<rparr>),
      (''wide'', \<lparr>width = 1920, height = 1080\<rparr>)] \<and>
   (\<forall>(k, v) \<in> set VIEWPORTS. (k, v) \<in> set fixed_position_viewports \<longleftrightarrow> 992 \<le> width v) \<and>
   (\<forall>(k, v) \<in> set VIEWPORTS. (k, v) \<in> set two_column_viewports \<longleftrightarrow> 640 \<le> width v) \<and>
   (\<forall>(k, v) \<in> set fixed_position_viewports. width v \<noteq> 375) \<and>
   map fst (parametrize (test_header_fixed_position_desktop w) fixed_position_viewports) =
     [''desktop'', ''wide''] \<and>
   map fst (parametrize (test_homepage_two_column_layout w) two_column_viewports) =
     [''tablet'', ''desktop'', ''wide'']"
  by (simp add: fixed_position_viewports_def two_column_viewports_def VIEWPORTS_def parametrize_def)

theorem viewport_gated_tests_witness:
  "(''mobile'', \<lparr>width = 375, height = 667\<rparr>) \<in> set VIEWPORTS \<and>
   (''mobile'', \<lparr>width = 375, height = 667\<rparr>) \<notin> set fixed_position_viewports \<and>
   (''mobile'', \<lparr>width = 375, height = 667\<rparr>) \<notin> set two_column_viewports \<and>
   (''tablet'', \<lparr>width = 768, height = 1024\<rparr>) \<in> set two_column_viewports \<and>
   (''tablet'', \<lparr>width = 768, height = 1024\<rparr>) \<notin> set fixed_position_viewports"
  using viewport_gated_tests [of still_world]
  by (simp add: VIEWPORTS_def)

lemma extractors_absent:
  assumes "matches (page_doc s page) selector = []" and "fault w (Evaluate page) = None"
  shows "get_computed_styles w page selector s = (Inr None, s)"
    and "get_element_position w page selector s = (Inr None, s)"
  using assms
  by (simp_all add: get_computed_styles_def get_element_position_def evaluate_def ext_def
      computed_styles_script_def element_position_script_def querySelector_def)

lemma check_visible_absent:
  assumes "matches (page_doc s page) selector = []"
  shows "check_element_visible w page selector s = (Inr False, s)"
  using assms
  by (simp add: check_element_visible_def try_except_def is_visible_def ext_def ret_def raise_def
      split: option.splits)

text \<open>
  The extractors on an absent element, and the check that handles the absence. For a
  selector that matches nothing in the page's document, \<^verbatim>\<open>get_computed_styles\<close> and
  \<^verbatim>\<open>get_element_position\<close> return \<open>None\<close> and leave the state as it is (only a failing
  \<^verbatim>\<open>page.evaluate\<close> raises). The relational check, the two-column test, fails with an
  assertion when an element is absent and does not crash: its reason is
  \<open>Sidebar not visible on\<close> the viewport when \<^verbatim>\<open>aside\<close> is absent, and
  \<open>Article not visible on\<close> the viewport when \<^verbatim>\<open>aside\<close> is visible and \<^verbatim>\<open>article\<close> is
  absent.
\<close>

theorem absent_element:
  "(matches (page_doc s page) selector = [] \<and> fault w (Evaluate page) = None \<longrightarrow>
      get_computed_styles w page selector s = (Inr None, s) \<and>
      get_element_position w page selector s = (Inr None, s)) \<and>
   (fault w (NewPage (next_page s)) = None \<and>
    fault w (Goto (next_page s) (TARGET_URL @ ''/index.html'')) = None \<and>
    fault w (WaitForLoadState (next_page s)) = None \<and>
    fault w (Close (next_page s)) = None \<longrightarrow>
      (matches (site w (TARGET_URL @ ''/index.html'') viewport) ''aside'' = [] \<longrightarrow>
         fst (test_homepage_two_column_layout w viewport_name viewport s) =
           Inl (AssertionError (''Sidebar not visible on '' @ viewport_name))) \<and>
      (fault w (IsVisible (next_page s) ''aside'') = None \<and>
       (case matches (site w (TARGET_URL @ ''/index.html'') viewport) ''aside'' of
          [] \<Rightarrow> False | e # es \<Rightarrow> visible e) \<and>
       matches (site w (TARGET_URL @ ''/index.html'') viewport) ''article'' = [] \<longrightarrow>
         fst (test_homepage_two_column_layout w viewport_name viewport s) =
           Inl (AssertionError (''Article not visible on '' @ viewport_name))))"
proof (rule conjI; rule impI)
  assume "matches (page_doc s page) selector = [] \<and> fault w (Evaluate page) = None"
  then show "get_computed_styles w page selector s = (Inr None, s) \<and>
      get_element_position w page selector s = (Inr None, s)"
    by (simp add: extractors_absent)
next
  assume a: "fault w (NewPage (next_page s)) = None \<and>
    fault w (Goto (next_page s) (TARGET_URL @ ''/index.html'')) = None \<and>
    fault w (WaitForLoadState (next_page s)) = None \<and>
    fault w (Close (next_page s)) = None"
  have aside: "fst (test_homepage_two_column_layout w viewport_name viewport s) =
        Inl (AssertionError (''Sidebar not visible on '' @ viewport_name))"
    if "matches (site w (TARGET_URL @ ''/index.html'') viewport) ''aside'' = []"
    using a that
    by (simp add: test_homepage_two_column_layout_def run_defs split: option.splits)
  have article: "fst (test_homepage_two_column_layout w viewport_name viewport s) =
        Inl (AssertionError (''Article not visible on '' @ viewport_name))"
    if "fault w (IsVisible (next_page s) ''aside'') = None \<and>
       (case matches (site w (TARGET_URL @ ''/index.html'') viewport) ''aside'' of
          [] \<Rightarrow> False | e # es \<Rightarrow> visible e) \<and>
       matches (site w (TARGET_URL @ ''/index.html'') viewport) ''article'' = []"
    using a that
    by (simp add: test_homepage_two_column_layout_def run_defs split: option.splits list.splits if_splits)
  show "(matches (site w (TARGET_URL @ ''/index.html'') viewport) ''aside'' = [] \<longrightarrow>
         fst (test_homepage_two_column_layout w viewport_name viewport s) =
           Inl (AssertionError (''Sidebar not visible on '' @ viewport_name))) \<and>
      (fault w (IsVisible (next_page s) ''aside'') = None \<and>
       (case matches (site w (TARGET_URL @ ''/index.html'') viewport) ''aside'' of
          [] \<Rightarrow> False | e # es \<Rightarrow> visible e) \<and>
       matches (site w (TARGET_URL @ ''/index.html'') viewport) ''article'' = [] \<longrightarrow>
         fst (test_homepage_two_column_layout w viewport_name viewport s) =
           Inl (AssertionError (''Article not visible on '' @ viewport_name)))"
    using aside article by blast
qed

theorem absent_element_witness:
  "get_computed_styles still_world 0 ''header'' fresh = (Inr None, fresh) \<and>
   get_element_position still_world 0 ''aside'' fresh = (Inr None, fresh) \<and>
   fst (test_homepage_two_column_layout still_world ''tablet'' \<lparr>width = 768, height = 1024\<rparr> fresh) =
     Inl (AssertionError ''Sidebar not visible on tablet'')"
  using absent_element [of fresh 0 "''header''" still_world "\<lparr>width = 768, height = 1024\<rparr>" "''tablet''"]
    absent_element [of fresh 0 "''aside''" still_world "\<lparr>width = 768, height = 1024\<rparr>" "''tablet''"]
  by (simp add: still_world_def fresh_def blank_def)

text \<open>
  Claim C6. The exact-match checks built on the extractor crash on an absent element.
  On a page without a \<^verbatim>\<open>header\<close>, at the desktop viewport, \<^verbatim>\<open>get_computed_styles\<close>
  returns \<open>None\<close>; the fixed-position test subscripts it (line 247) and the
  background-colour test subscripts it in its assertion message (line 230), so both end
  with TypeError, not with an assertion failure that gives a reason.
\<close>

theorem absent_header_crashes:
  "matches (site still_world (TARGET_URL @ ''/index.html'') \<lparr>width = 1440, height = 900\<rparr>) ''header'' = [] \<and>
   fst (test_header_fixed_position_desktop still_world ''desktop'' \<lparr>width = 1440, height = 900\<rparr> fresh) =
     Inl TypeError \<and>
   fst (test_header_background_color still_world ''desktop'' \<lparr>width = 1440, height = 900\<rparr> fresh) =
     Inl TypeError"
  by (simp add: test_header_fixed_position_desktop_def test_header_background_color_def
      dark_gray_def not_dark_gray_message_def run_defs still_world_def fresh_def)

section \<open>The screenshot test raises no assertion\<close>

lemma na_ret [na]: "never_asserts (ret x)"
  by (simp add: never_asserts_def ret_def)

lemma na_bnd [na]:
  assumes "never_asserts m" and "\<And>x. never_asserts (f x)"
  shows "never_asserts (bnd m f)"
  unfolding never_asserts_def
proof (intro allI)
  fix s msg
  obtain r s' where ms: "m s = (r, s')" by (cases "m s")
  show "fst (bnd m f s) \<noteq> Inl (AssertionError msg)"
  proof (cases r)
    case (Inl e)
    then have "fst (m s) = Inl e" using ms by simp
    then have "e \<noteq> AssertionError msg" using assms(1) by (auto simp: never_asserts_def)
    then show ?thesis using Inl ms by (simp add: bnd_def)
  next
    case (Inr x)
    then show ?thesis using ms assms(2) [of x] by (simp add: bnd_def never_asserts_def)
  qed
qed

lemma na_seq [na]: "never_asserts m \<Longrightarrow> never_asserts n \<Longrightarrow> never_asserts (seq m n)"
  unfolding seq_def by (rule na_bnd)

lemma na_try_finally [na]:
  assumes "never_asserts body" and "never_asserts fin"
  shows "never_asserts (try_finally body fin)"
  unfolding never_asserts_def
proof (intro allI)
  fix s msg
  obtain r s' where b: "body s = (r, s')" by (cases "body s")
  obtain r' s'' where f: "fin s' = (r', s'')" by (cases "fin s'")
  have r: "r \<noteq> Inl (AssertionError msg)"
    using assms(1) b by (metis fst_conv never_asserts_def)
  have r': "r' \<noteq> Inl (AssertionError msg)"
    using assms(2) f by (metis fst_conv never_asserts_def)
  show "fst (try_finally body fin s) \<noteq> Inl (AssertionError msg)"
    using r r' by (cases r') (auto simp: try_finally_def b f)
qed

lemma na_ext [na]:
  assumes "no_assertion_fault w" and "never_asserts m"
  shows "never_asserts (ext w c m)"
  using assms
  by (auto simp: ext_def never_asserts_def no_assertion_fault_def raise_def split: option.splits)

lemma na_if [na]: "never_asserts m \<Longrightarrow> never_asserts n \<Longrightarrow> never_asserts (if b then m else n)"
  by simp

lemma na_new_page [na]: "no_assertion_fault w \<Longrightarrow> never_asserts (new_page w vp)"
  by (auto simp: new_page_def ext_def never_asserts_def no_assertion_fault_def raise_def
      split: option.splits)

lemma na_goto [na]: "no_assertion_fault w \<Longrightarrow> never_asserts (goto w page url)"
  unfolding goto_def by (rule na_ext) (simp_all add: never_asserts_def)

lemma na_wait [na]: "no_assertion_fault w \<Longrightarrow> never_asserts (wait_for_load_state w page)"
  unfolding wait_for_load_state_def by (intro na)

lemma na_close [na]: "no_assertion_fault w \<Longrightarrow> never_asserts (close w page)"
  unfolding close_def by (rule na_ext) (simp_all add: never_asserts_def)

lemma na_screenshot [na]: "no_assertion_fault w \<Longrightarrow> never_asserts (screenshot w page path)"
  unfolding screenshot_def by (rule na_ext) (simp_all add: never_asserts_def)

lemma na_mkdir [na]: "no_assertion_fault w \<Longrightarrow> never_asserts (mkdir w path)"
  unfolding mkdir_def by (intro na)

lemma na_Image_open [na]: "no_assertion_fault w \<Longrightarrow> never_asserts (Image_open w path)"
  unfolding Image_open_def
  by (rule na_ext) (simp_all add: never_asserts_def split: option.splits stored.splits)

lemma na_Image_save [na]: "no_assertion_fault w \<Longrightarrow> never_asserts (Image_save w img path)"
  unfolding Image_save_def
  by (rule na_ext) (simp_all add: never_asserts_def save_check_def raise_def)

lemma na_json_dump [na]: "no_assertion_fault w \<Longrightarrow> never_asserts (json_dump w r path)"
  unfolding json_dump_def by (rule na_ext) (simp_all add: never_asserts_def)

lemma na_print [na]: "never_asserts (print l)"
  by (simp add: never_asserts_def print_def)

lemma compare_screenshots_errors:
  assumes "snd (compare_screenshots rs ref_img target_img) = Inl e"
  shows "e = ValueError"
proof (cases "empty_image ref_img")
  case True
  then show ?thesis
    using assms compare_screenshots_empty [of ref_img rs target_img] by simp
next
  case False
  then obtain vis r where "compare_screenshots rs ref_img target_img = (Some vis, Inr r)"
    using positive_area_returns [of ref_img rs target_img] by (auto simp: empty_image_def)
  then show ?thesis using assms by simp
qed

lemma na_compare_screenshot_files [na]:
  assumes "no_assertion_fault w"
  shows "never_asserts (compare_screenshot_files w ref_path target_path diff_path)"
proof -
  have out: "never_asserts (lift (snd (compare_screenshots (resample w) a b)) :: diff_result prog)" for a b
    using compare_screenshots_errors [of "resample w" a b]
    by (auto simp: never_asserts_def lift_def)
  have "never_asserts (case compare_screenshots (resample w) a b of
        (None, outcome) \<Rightarrow> lift outcome
      | (Some vis, outcome) \<Rightarrow> seq (Image_save w vis diff_path) (lift outcome))" for a b
    using out [of a b] assms
    by (cases "compare_screenshots (resample w) a b") (auto split: option.splits intro!: na)
  then show ?thesis
    unfolding compare_screenshot_files_def using assms by (intro na) simp_all
qed

lemma never_asserts_screenshot_test:
  assumes "no_assertion_fault w"
  shows "never_asserts (test_page_screenshot_similarity w page_path viewport_name viewport)"
  unfolding test_page_screenshot_similarity_def Let_def
  using assms by (intro na) simp_all


lemma compare_screenshots_saved:
  assumes "snd (compare_screenshots rs ref_img target_img) = Inr r"
  shows "\<exists>vis. compare_screenshots rs ref_img target_img = (Some vis, Inr r) \<and>
     \<not> empty_image vis"
proof -
  have ne: "\<not> empty_image ref_img"
    using assms by (rule returns_nonempty)
  obtain cand where cand: "img_size cand = img_size ref_img"
    "compare_screenshots rs ref_img target_img = compare_pixels ref_img cand"
    using compare_screenshots_nonempty [OF ne] by blast
  show ?thesis
    using assms ne unfolding cand(2) compare_pixels_positive [OF cand(1) ne]
    by (auto simp: empty_image_def split: sum.splits)
qed

lemma screenshot_test_quiet:
  assumes quiet: "\<forall>c. fault w c = None"
    and decodes: "\<not> empty_image (render w (site w (TARGET_URL @ ''/'' @ page_path) viewport) viewport)"
    and result: "snd (compare_screenshots (resample w)
                   (render w (site w (REFERENCE_URL @ ''/'' @ page_path) viewport) viewport)
                   (render w (site w (TARGET_URL @ ''/'' @ page_path) viewport) viewport)) = Inr result"
  shows "fst (test_page_screenshot_similarity w page_path viewport_name viewport s) = Inr () \<and>
     files (snd (test_page_screenshot_similarity w page_path viewport_name viewport s))
       (path_join (path_join (path_join OUTPUT_DIR
          (str_replace (str_replace page_path ''/'' ''_'') ''.html'' [])) viewport_name)
          ''comparison_result.json'') = Some (Json result) \<and>
     stdout (snd (test_page_screenshot_similarity w page_path viewport_name viewport s)) =
       stdout s @
       Similar (str_replace (str_replace page_path ''/'' ''_'') ''.html'' []) viewport_name
         (similarity_percentage result) #
       (if passed result then []
        else [Difference_detected (path_join (path_join (path_join OUTPUT_DIR
          (str_replace (str_replace page_path ''/'' ''_'') ''.html'' [])) viewport_name) ''diff.png'')])"
proof -
  have ref: "\<not> empty_image (render w (site w (REFERENCE_URL @ ''/'' @ page_path) viewport) viewport)"
    using result by (rule returns_nonempty)
  obtain vis where vis: "compare_screenshots (resample w)
                   (render w (site w (REFERENCE_URL @ ''/'' @ page_path) viewport) viewport)
                   (render w (site w (TARGET_URL @ ''/'' @ page_path) viewport) viewport) =
                 (Some vis, Inr result)"
    and saved: "\<not> empty_image vis"
    using compare_screenshots_saved [OF result] by blast
  show ?thesis
    using quiet
    by (simp add: test_page_screenshot_similarity_def run_defs Let_def vis [simplified]
        ref [simplified] decodes [simplified] saved)
qed


text \<open>
  Claim C7. When no external call raises, the candidate's screenshot has a pixel (so that
  \<^verbatim>\<open>Image.open\<close> decodes it) and the comparison of the two screenshots returns a
  dictionary, the screenshot test finishes normally, whatever \<open>passed\<close> is: the dictionary
  is written to \<^verbatim>\<open>comparison_result.json\<close>, the similarity is printed, and a result that
  did not pass adds the warning line only. The test raises an AssertionError in no world
  whose external calls raise none.
\<close>

theorem similarity_shortfall_not_fatal:
  "((\<forall>c. fault w c = None) \<and>
    \<not> empty_image (render w (site w (TARGET_URL @ ''/'' @ page_path) viewport) viewport) \<and>
    snd (compare_screenshots (resample w)
           (render w (site w (REFERENCE_URL @ ''/'' @ page_path) viewport) viewport)
           (render w (site w (TARGET_URL @ ''/'' @ page_path) viewport) viewport)) = Inr result \<longrightarrow>
    fst (test_page_screenshot_similarity w page_path viewport_name viewport s) = Inr () \<and>
    files (snd (test_page_screenshot_similarity w page_path viewport_name viewport s))
      (path_join (path_join (path_join OUTPUT_DIR
         (str_replace (str_replace page_path ''/'' ''_'') ''.html'' [])) viewport_name)
         ''comparison_result.json'') = Some (Json result) \<and>
    stdout (snd (test_page_screenshot_similarity w page_path viewport_name viewport s)) =
      stdout s @
      Similar (str_replace (str_replace page_path ''/'' ''_'') ''.html'' []) viewport_name
        (similarity_percentage result) #
      (if passed result then []
       else [Difference_detected (path_join (path_join (path_join OUTPUT_DIR
         (str_replace (str_replace page_path ''/'' ''_'') ''.html'' [])) viewport_name) ''diff.png'')])) \<and>
   ((\<forall>c msg. fault w c \<noteq> Some (AssertionError msg)) \<longrightarrow>
    (\<forall>msg. fst (test_page_screenshot_similarity w page_path viewport_name viewport s) \<noteq>
       Inl (AssertionError msg)))"
proof (rule conjI; rule impI)
  assume "(\<forall>c. fault w c = None) \<and>
    \<not> empty_image (render w (site w (TARGET_URL @ ''/'' @ page_path) viewport) viewport) \<and>
    snd (compare_screenshots (resample w)
           (render w (site w (REFERENCE_URL @ ''/'' @ page_path) viewport) viewport)
           (render w (site w (TARGET_URL @ ''/'' @ page_path) viewport) viewport)) = Inr result"
  then have q: "\<forall>c. fault w c = None"
    and d: "\<not> empty_image (render w (site w (TARGET_URL @ ''/'' @ page_path) viewport) viewport)"
    and r: "snd (compare_screenshots (resample w)
           (render w (site w (REFERENCE_URL @ ''/'' @ page_path) viewport) viewport)
           (render w (site w (TARGET_URL @ ''/'' @ page_path) viewport) viewport)) = Inr result"
    by simp_all
  show "fst (test_page_screenshot_similarity w page_path viewport_name viewport s) = Inr () \<and>
    files (snd (test_page_screenshot_similarity w page_path viewport_name viewport s))
      (path_join (path_join (path_join OUTPUT_DIR
         (str_replace (str_replace page_path ''/'' ''_'') ''.html'' [])) viewport_name)
         ''comparison_result.json'') = Some (Json result) \<and>
    stdout (snd (test_page_screenshot_similarity w page_path viewport_name viewport s)) =
      stdout s @
      Similar (str_replace (str_replace page_path ''/'' ''_'') ''.html'' []) viewport_name
        (similarity_percentage result) #
      (if passed result then []
       else [Difference_detected (path_join (path_join (path_join OUTPUT_DIR
         (str_replace (str_replace page_path ''/'' ''_'') ''.html'' [])) viewport_name) ''diff.png'')])"
    by (rule screenshot_test_quiet [OF q d r])
next
  assume "\<forall>c msg. fault w c \<noteq> Some (AssertionError msg)"
  then have "no_assertion_fault w" by (simp add: no_assertion_fault_def)
  then have "never_asserts (test_page_screenshot_similarity w page_path viewport_name viewport)"
    by (rule never_asserts_screenshot_test)
  then show "\<forall>msg. fst (test_page_screenshot_similarity w page_path viewport_name viewport s) \<noteq>
       Inl (AssertionError msg)"
    by (simp add: never_asserts_def)
qed

theorem similarity_shortfall_not_fatal_witness:
  "fst (test_page_screenshot_similarity drifted_world ''index.html'' ''mobile''
          \<lparr>width = 375, height = 667\<rparr> fresh) = Inr () \<and>
   files (snd (test_page_screenshot_similarity drifted_world ''index.html'' ''mobile''
          \<lparr>width = 375, height = 667\<rparr> fresh))
     ''/Users/bino/Downloads/cattaneo/test_results/index/mobile/comparison_result.json'' =
     Some (Json \<lparr>total_pixels = 1, different_pixels = 1, similarity_percentage = Finite 0,
                 max_difference = 765, passed = False\<rparr>) \<and>
   stdout (snd (test_page_screenshot_similarity drifted_world ''index.html'' ''mobile''
          \<lparr>width = 375, height = 667\<rparr> fresh)) =
     [Similar ''index'' ''mobile'' (Finite 0),
      Difference_detected ''/Users/bino/Downloads/cattaneo/test_results/index/mobile/diff.png'']"
proof -
  have r: "snd (compare_screenshots (resample drifted_world)
           (render drifted_world (site drifted_world (REFERENCE_URL @ ''/'' @ ''index.html'')
              \<lparr>width = 375, height = 667\<rparr>) \<lparr>width = 375, height = 667\<rparr>)
           (render drifted_world (site drifted_world (TARGET_URL @ ''/'' @ ''index.html'')
              \<lparr>width = 375, height = 667\<rparr>) \<lparr>width = 375, height = 667\<rparr>)) =
     Inr \<lparr>total_pixels = 1, different_pixels = 1, similarity_percentage = Finite 0,
          max_difference = 765, passed = False\<rparr>"
    using black_white_pixel [of "resample drifted_world"]
    by (simp add: drifted_world_def REFERENCE_URL_def TARGET_URL_def blank_def)
  have q: "\<forall>c. fault drifted_world c = None"
    by (simp add: drifted_world_def)
  have d: "\<not> empty_image (render drifted_world (site drifted_world (TARGET_URL @ ''/'' @ ''index.html'')
              \<lparr>width = 375, height = 667\<rparr>) \<lparr>width = 375, height = 667\<rparr>)"
    by (simp add: drifted_world_def empty_image_def Image_new_def)
  show ?thesis
    using similarity_shortfall_not_fatal [of drifted_world "''index.html''"
        "\<lparr>width = 375, height = 667\<rparr>"
        "\<lparr>total_pixels = 1, different_pixels = 1, similarity_percentage = Finite 0,
          max_difference = 765, passed = False\<rparr>" "''mobile''" fresh] q d r
    by (simp add: fresh_def path_join_def OUTPUT_DIR_def str_replace_def)
qed

section \<open>Further properties of the raster differ\<close>

lemma pixel_diff_bounds: "0 \<le> pixel_diff p q \<and> pixel_diff p q \<le> 765"
proof -
  obtain r1 g1 b1 where p: "p = (r1, g1, b1)" by (cases p)
  obtain r2 g2 b2 where q: "q = (r2, g2, b2)" by (cases q)
  have "uint r1 < 256" "uint g1 < 256" "uint b1 < 256" "0 \<le> uint r1" "0 \<le> uint g1" "0 \<le> uint b1"
    "uint r2 < 256" "uint g2 < 256" "uint b2 < 256" "0 \<le> uint r2" "0 \<le> uint g2" "0 \<le> uint b2"
    using uint_bounded [of r1] uint_bounded [of g1] uint_bounded [of b1]
      uint_bounded [of r2] uint_bounded [of g2] uint_bounded [of b2] by simp_all
  then show ?thesis unfolding p q pixel_diff.simps by linarith
qed

lemma fold_max_Max:
  "fold (\<lambda>x m. max m (f x)) xs (m0 :: int) = Max (insert m0 (f ` set xs))"
proof (induction xs arbitrary: m0)
  case Nil
  then show ?case by simp
next
  case (Cons x xs)
  have "Max (insert (max m0 (f x)) (f ` set xs)) = Max (insert m0 (insert (f x) (f ` set xs)))"
    by (cases "f ` set xs = {}") (simp_all add: max.assoc)
  then show ?case using Cons.IH [of "max m0 (f x)"] by simp
qed

lemma fold_rows_Max:
  "fold (\<lambda>y. fold (\<lambda>x m. max m (f (x, y))) xs) ys (m0 :: int) =
     Max (insert m0 (f ` (set xs \<times> set ys)))"
proof (induction ys arbitrary: m0)
  case Nil
  then show ?case by simp
next
  case (Cons y ys)
  let ?m1 = "Max (insert m0 ((\<lambda>x. f (x, y)) ` set xs))"
  have row: "fold (\<lambda>x m. max m (f (x, y))) xs m0 = ?m1"
    by (rule fold_max_Max)
  have img: "f ` (set xs \<times> set (y # ys)) = (\<lambda>x. f (x, y)) ` set xs \<union> f ` (set xs \<times> set ys)"
    by auto
  have "Max (insert ?m1 (f ` (set xs \<times> set ys))) =
      Max (insert m0 ((\<lambda>x. f (x, y)) ` set xs) \<union> f ` (set xs \<times> set ys))"
  proof (cases "f ` (set xs \<times> set ys) = {}")
    case True
    show ?thesis unfolding True by simp
  next
    case False
    have "Max (insert m0 ((\<lambda>x. f (x, y)) ` set xs) \<union> f ` (set xs \<times> set ys)) =
        max ?m1 (Max (f ` (set xs \<times> set ys)))"
      using False by (intro Max_Un) simp_all
    also have "\<dots> = Max (insert ?m1 (f ` (set xs \<times> set ys)))"
      using False by simp
    finally show ?thesis by simp
  qed
  then have step: "Max (insert ?m1 (f ` (set xs \<times> set ys))) =
      Max (insert m0 (f ` (set xs \<times> set (y # ys))))"
    by (simp only: img Un_insert_left)
  have "fold (\<lambda>y. fold (\<lambda>x m. max m (f (x, y))) xs) (y # ys) m0 =
      fold (\<lambda>y. fold (\<lambda>x m. max m (f (x, y))) xs) ys ?m1"
    by (simp add: row)
  also have "\<dots> = Max (insert ?m1 (f ` (set xs \<times> set ys)))"
    by (rule Cons.IH)
  finally show ?case
    using step by simp
qed


text \<open>
  For images of the same size, \<open>max_difference\<close> of a returned dictionary is the largest
  sum of the absolute differences of the three channels over the coordinates of the
  image, and it lies between 0 and 765.
\<close>

theorem max_difference_is_maximum:
  assumes "img_size target_img = img_size ref_img"
    and "snd (compare_screenshots rs ref_img target_img) = Inr r"
  shows "max_difference r =
           Max (insert 0 ((\<lambda>p. case (img_data ref_img p, img_data target_img p) of
                                 ((a1, a2, a3), (c1, c2, c3)) \<Rightarrow>
                                   \<bar>uint a1 - uint c1\<bar> + \<bar>uint a2 - uint c2\<bar> + \<bar>uint a3 - uint c3\<bar>) `
                  {p. fst p < fst (img_size ref_img) \<and> snd p < snd (img_size ref_img)})) \<and>
         0 \<le> max_difference r \<and> max_difference r \<le> 765"
proof -
  let ?f = "\<lambda>p. pixel_diff (img_data ref_img p) (img_data target_img p)"
  have channels: "(\<lambda>p. case (img_data ref_img p, img_data target_img p) of
                                 ((a1, a2, a3), (c1, c2, c3)) \<Rightarrow>
                                   \<bar>uint a1 - uint c1\<bar> + \<bar>uint a2 - uint c2\<bar> + \<bar>uint a3 - uint c3\<bar>) = ?f"
    by (simp add: fun_eq_iff pixel_diff_channels)
  have inside: "{p. fst p < fst (img_size ref_img) \<and> snd p < snd (img_size ref_img)} =
      {p. in_image ref_img p}"
    by (simp add: in_image_def)
  have dom: "set [0..<fst (img_size ref_img)] \<times> set [0..<snd (img_size ref_img)] =
      {p. in_image ref_img p}"
    by (auto simp: in_image_def)
  have ne: "\<not> empty_image ref_img"
    using assms(2) by (rule returns_nonempty)
  have cmp: "compare_screenshots rs ref_img target_img = compare_pixels ref_img target_img"
    using assms(1) by (simp add: compare_screenshots_def)
  have "max_difference r =
      fold (\<lambda>y. fold (\<lambda>x m. max m (?f (x, y))) [0..<fst (img_size ref_img)])
        [0..<snd (img_size ref_img)] 0"
    using assms(2) unfolding cmp compare_pixels_positive [OF assms(1) ne]
    by (auto split: sum.splits)
  also have "\<dots> = Max (insert 0 (?f ` {p. in_image ref_img p}))"
    using fold_rows_Max [of ?f "[0..<fst (img_size ref_img)]" "[0..<snd (img_size ref_img)]" 0]
    by (simp only: dom)
  finally have eq: "max_difference r = Max (insert 0 (?f ` {p. in_image ref_img p}))" .
  have "{p. in_image ref_img p} \<subseteq> {..<fst (img_size ref_img)} \<times> {..<snd (img_size ref_img)}"
    by (auto simp: in_image_def)
  then have fin: "finite (insert 0 (?f ` {p. in_image ref_img p}))"
    by (simp add: finite_subset)
  have lo: "0 \<le> Max (insert 0 (?f ` {p. in_image ref_img p}))"
    using fin by (intro Max_ge) simp_all
  have hi: "Max (insert 0 (?f ` {p. in_image ref_img p})) \<le> 765"
    using fin pixel_diff_bounds by (subst Max_le_iff) auto
  show ?thesis
    unfolding channels inside using eq lo hi by simp
qed

theorem max_difference_is_maximum_witness:
  "snd (compare_screenshots (\<lambda>flt img sz p. (0, 0, 0))
          (Image_new (1, 1) (0, 0, 0)) (Image_new (1, 1) (255, 255, 255))) =
     Inr \<lparr>total_pixels = 1, different_pixels = 1, similarity_percentage = Finite 0,
          max_difference = 765, passed = False\<rparr> \<and>
   (765 :: int) = Max (insert 0 ((\<lambda>p. case (img_data (Image_new (1, 1) (0, 0, 0)) p,
                                        img_data (Image_new (1, 1) (255, 255, 255)) p) of
                                 ((a1, a2, a3), (c1, c2, c3)) \<Rightarrow>
                                   \<bar>uint a1 - uint c1\<bar> + \<bar>uint a2 - uint c2\<bar> + \<bar>uint a3 - uint c3\<bar>) `
                  {p. fst p < fst (img_size (Image_new (1, 1) (0, 0, 0))) \<and>
                      snd p < snd (img_size (Image_new (1, 1) (0, 0, 0)))}))"
  using max_difference_is_maximum [of "Image_new (1, 1) (255, 255, 255)" "Image_new (1, 1) (0, 0, 0)"
      "\<lambda>flt img sz p. (0, 0, 0)"
      "\<lparr>total_pixels = 1, different_pixels = 1, similarity_percentage = Finite 0,
          max_difference = 765, passed = False\<rparr>"]
    black_white_pixel [of "\<lambda>flt img sz p. (0, 0, 0)"]
  by (simp add: Image_new_def)

end
